theory Spec2Isabelle
  imports Main "HOL-Library.Word"
begin

section \<open>Data model of the loading scenario observer\<close>

text \<open>
  \<^verbatim>\<open>PageNode::LoadingState\<close>: the five enumerators that the switch of
  \<^verbatim>\<open>StateIsLoading\<close> lists (loading_scenario_observer.cc).
\<close>

datatype LoadingState =
  kLoadingNotStarted | kLoading | kLoadingTimedOut | kLoadedBusy | kLoadedIdle

text \<open>\<^verbatim>\<open>LoadingScenario\<close>: the four values \<^verbatim>\<open>GetScenario\<close> returns.\<close>

datatype LoadingScenario =
  kNoPageLoading | kFocusedPageLoading | kVisiblePageLoading | kBackgroundPageLoading

text \<open>
  \<^verbatim>\<open>size_t\<close> is taken as the 64-bit unsigned integer of the desktop targets.
\<close>

type_synonym size_t = "64 word"

text \<open>
  \<^verbatim>\<open>LoadingScenarioObserver::LoadingCounts\<close> (loading_scenario_observer.h): three
  counters, all initialised to 0; the defaulted \<^verbatim>\<open>operator==\<close> is equality of records.
\<close>

record LoadingCounts =
  focused_loading_pages :: size_t
  visible_loading_pages :: size_t
  loading_pages :: size_t

definition LoadingCounts_default :: LoadingCounts where
  "LoadingCounts_default =
     \<lparr>focused_loading_pages = 0, visible_loading_pages = 0, loading_pages = 0\<rparr>"

text \<open>
  The three attributes of a \<^verbatim>\<open>PageNode\<close> that the observer reads through
  \<^verbatim>\<open>GetLoadingState()\<close>, \<^verbatim>\<open>IsVisible()\<close> and \<^verbatim>\<open>IsFocused()\<close>.
\<close>

record PageNode =
  loading_state :: LoadingState
  is_visible :: bool
  is_focused :: bool

text \<open>Process-terminating failures: a died checked numeric and a failed \<^verbatim>\<open>CHECK\<close>.\<close>

datatype fatal = CheckedNumericDied | CheckFailed

section \<open>Counting core\<close>

fun StateIsLoading :: "LoadingState \<Rightarrow> bool" where
  "StateIsLoading kLoadingNotStarted = False"
| "StateIsLoading kLoadingTimedOut = False"
| "StateIsLoading kLoadedIdle = False"
| "StateIsLoading kLoading = True"
| "StateIsLoading kLoadedBusy = True"

text \<open>
  Modelled from the spec: \<^verbatim>\<open>base::CheckAdd\<close>, \<^verbatim>\<open>base::CheckSub\<close> and
  \<^verbatim>\<open>CheckedNumeric::ValueOrDie\<close> of base/numerics/checked_math.h are not among the
  sources. The comments of \<^verbatim>\<open>CheckIncrement\<close> and \<^verbatim>\<open>CheckDecrement\<close> ("CHECK's on
  overflow", "CHECK's on underflow") and the spec ("fails fatally on overflow", "fails
  fatally on underflow") give their meaning: the checked result is valid exactly when the
  mathematical result is representable in \<^verbatim>\<open>size_t\<close>, and \<^verbatim>\<open>ValueOrDie\<close> terminates
  the process on an invalid one.
\<close>

definition CheckAdd :: "size_t \<Rightarrow> size_t \<Rightarrow> size_t option" where
  "CheckAdd x y = (if unat x + unat y < 2 ^ 64 then Some (x + y) else None)"

definition CheckSub :: "size_t \<Rightarrow> size_t \<Rightarrow> size_t option" where
  "CheckSub x y = (if unat y \<le> unat x then Some (x - y) else None)"

definition ValueOrDie :: "size_t option \<Rightarrow> fatal + size_t" where
  "ValueOrDie r = (case r of None \<Rightarrow> Inl CheckedNumericDied | Some v \<Rightarrow> Inr v)"

text \<open>
  \<^verbatim>\<open>CheckIncrement(size_t& num)\<close> and \<^verbatim>\<open>CheckDecrement(size_t& num)\<close>: the new
  value of \<^verbatim>\<open>num\<close>, or the fatal failure (then nothing is assigned).
\<close>

definition CheckIncrement :: "size_t \<Rightarrow> fatal + size_t" where
  "CheckIncrement num = ValueOrDie (CheckAdd num 1)"

definition CheckDecrement :: "size_t \<Rightarrow> fatal + size_t" where
  "CheckDecrement num = ValueOrDie (CheckSub num 1)"

definition GetScenario :: "LoadingCounts \<Rightarrow> LoadingScenario" where
  "GetScenario c =
     (if focused_loading_pages c > 0 then kFocusedPageLoading
      else if visible_loading_pages c > 0 then kVisiblePageLoading
      else if loading_pages c > 0 then kBackgroundPageLoading
      else kNoPageLoading)"

definition IncrementLoadingPageCounts ::
    "bool \<Rightarrow> bool \<Rightarrow> LoadingCounts \<Rightarrow> fatal + LoadingCounts" where
  "IncrementLoadingPageCounts visible focused c =
     (case CheckIncrement (loading_pages c) of
        Inl e \<Rightarrow> Inl e
      | Inr l \<Rightarrow>
          (case (if visible then CheckIncrement (visible_loading_pages c)
                 else Inr (visible_loading_pages c)) of
             Inl e \<Rightarrow> Inl e
           | Inr v \<Rightarrow>
               (case (if focused then CheckIncrement (focused_loading_pages c)
                      else Inr (focused_loading_pages c)) of
                  Inl e \<Rightarrow> Inl e
                | Inr f \<Rightarrow>
                    Inr \<lparr>focused_loading_pages = f, visible_loading_pages = v,
                         loading_pages = l\<rparr>)))"

definition DecrementLoadingPageCounts ::
    "bool \<Rightarrow> bool \<Rightarrow> LoadingCounts \<Rightarrow> fatal + LoadingCounts" where
  "DecrementLoadingPageCounts visible focused c =
     (case CheckDecrement (loading_pages c) of
        Inl e \<Rightarrow> Inl e
      | Inr l \<Rightarrow>
          (case (if visible then CheckDecrement (visible_loading_pages c)
                 else Inr (visible_loading_pages c)) of
             Inl e \<Rightarrow> Inl e
           | Inr v \<Rightarrow>
               (case (if focused then CheckDecrement (focused_loading_pages c)
                      else Inr (focused_loading_pages c)) of
                  Inl e \<Rightarrow> Inl e
                | Inr f \<Rightarrow>
                    Inr \<lparr>focused_loading_pages = f, visible_loading_pages = v,
                         loading_pages = l\<rparr>)))"

section \<open>Event adapter\<close>

text \<open>
  Modelled from the spec: \<^verbatim>\<open>SetGlobalLoadingScenario\<close> and
  \<^verbatim>\<open>blink::performance_scenarios::GetLoadingScenario(Scope::kGlobal)\<close> are not among
  the sources. The spec gives the publication sink as one cell per scope with "a write
  operation: store a LoadingScenario value into a named scope's published cell" and a read
  that "load[s] the current published value". The state below holds the observer's
  \<^verbatim>\<open>global_counts_\<close>, the cell of the global scope, and the history of the stores made
  to the cell (oldest first), which is what "published once" and "no store" speak about.
\<close>

record World =
  global_counts :: LoadingCounts
  global_loading_scenario :: LoadingScenario
  scenario_stores :: "LoadingScenario list"

definition SetGlobalLoadingScenario :: "LoadingScenario \<Rightarrow> World \<Rightarrow> World" where
  "SetGlobalLoadingScenario scenario w =
     w\<lparr>global_loading_scenario := scenario,
       scenario_stores := scenario_stores w @ [scenario]\<rparr>"

definition UpdateGlobalScenario :: "World \<Rightarrow> World" where
  "UpdateGlobalScenario w = SetGlobalLoadingScenario (GetScenario (global_counts w)) w"

definition OnPageNodeAdded :: "PageNode \<Rightarrow> World \<Rightarrow> fatal + World" where
  "OnPageNodeAdded page_node w =
     (case (if StateIsLoading (loading_state page_node)
            then IncrementLoadingPageCounts (is_visible page_node) (is_focused page_node)
                   (global_counts w)
            else Inr (global_counts w)) of
        Inl e \<Rightarrow> Inl e
      | Inr c \<Rightarrow> Inr (UpdateGlobalScenario (w\<lparr>global_counts := c\<rparr>)))"

definition OnBeforePageNodeRemoved :: "PageNode \<Rightarrow> World \<Rightarrow> fatal + World" where
  "OnBeforePageNodeRemoved page_node w =
     (if StateIsLoading (loading_state page_node)
      then (case DecrementLoadingPageCounts (is_visible page_node) (is_focused page_node)
                   (global_counts w) of
              Inl e \<Rightarrow> Inl e
            | Inr c \<Rightarrow> Inr (UpdateGlobalScenario (w\<lparr>global_counts := c\<rparr>)))
      else Inr w)"

definition OnIsFocusedChanged :: "PageNode \<Rightarrow> World \<Rightarrow> fatal + World" where
  "OnIsFocusedChanged page_node w =
     (if StateIsLoading (loading_state page_node)
      then (case DecrementLoadingPageCounts (is_visible page_node) (\<not> is_focused page_node)
                   (global_counts w) of
              Inl e \<Rightarrow> Inl e
            | Inr c1 \<Rightarrow>
                (case IncrementLoadingPageCounts (is_visible page_node)
                        (is_focused page_node) c1 of
                   Inl e \<Rightarrow> Inl e
                 | Inr c2 \<Rightarrow> Inr (UpdateGlobalScenario (w\<lparr>global_counts := c2\<rparr>))))
      else Inr w)"

definition OnIsVisibleChanged :: "PageNode \<Rightarrow> World \<Rightarrow> fatal + World" where
  "OnIsVisibleChanged page_node w =
     (if StateIsLoading (loading_state page_node)
      then (case DecrementLoadingPageCounts (\<not> is_visible page_node) (is_focused page_node)
                   (global_counts w) of
              Inl e \<Rightarrow> Inl e
            | Inr c1 \<Rightarrow>
                (case IncrementLoadingPageCounts (is_visible page_node)
                        (is_focused page_node) c1 of
                   Inl e \<Rightarrow> Inl e
                 | Inr c2 \<Rightarrow> Inr (UpdateGlobalScenario (w\<lparr>global_counts := c2\<rparr>))))
      else Inr w)"

definition OnLoadingStateChanged ::
    "PageNode \<Rightarrow> LoadingState \<Rightarrow> World \<Rightarrow> fatal + World" where
  "OnLoadingStateChanged page_node previous_state w =
     (let is_loading = StateIsLoading (loading_state page_node);
          was_loading = StateIsLoading previous_state
      in if is_loading \<noteq> was_loading
         then (case (if is_loading
                     then IncrementLoadingPageCounts (is_visible page_node)
                            (is_focused page_node) (global_counts w)
                     else DecrementLoadingPageCounts (is_visible page_node)
                            (is_focused page_node) (global_counts w)) of
                 Inl e \<Rightarrow> Inl e
               | Inr c \<Rightarrow> Inr (UpdateGlobalScenario (w\<lparr>global_counts := c\<rparr>)))
         else Inr w)"

text \<open>
  The loop of \<^verbatim>\<open>OnPassedToGraph\<close> over \<^verbatim>\<open>graph->GetAllPageNodes()\<close>, the pages in
  the order of the iteration.
\<close>

fun OnPassedToGraph_loop :: "PageNode list \<Rightarrow> LoadingCounts \<Rightarrow> fatal + LoadingCounts" where
  "OnPassedToGraph_loop [] c = Inr c"
| "OnPassedToGraph_loop (page_node # rest) c =
     (if StateIsLoading (loading_state page_node)
      then (case IncrementLoadingPageCounts (is_visible page_node) (is_focused page_node) c of
              Inl e \<Rightarrow> Inl e
            | Inr c' \<Rightarrow> OnPassedToGraph_loop rest c')
      else OnPassedToGraph_loop rest c)"

text \<open>
  \<^verbatim>\<open>OnPassedToGraph\<close>: the two \<^verbatim>\<open>CHECK\<close>s, the loop, one update. The registration
  \<^verbatim>\<open>graph->AddPageNodeObserver(this)\<close> changes the graph's list of observers only, which
  is outside this state; so does \<^verbatim>\<open>RemovePageNodeObserver\<close> in \<^verbatim>\<open>OnTakenFromGraph\<close>.
\<close>

definition OnPassedToGraph :: "PageNode list \<Rightarrow> World \<Rightarrow> fatal + World" where
  "OnPassedToGraph all_page_nodes w =
     (if global_counts w \<noteq> LoadingCounts_default then Inl CheckFailed
      else if global_loading_scenario w \<noteq> kNoPageLoading then Inl CheckFailed
      else (case OnPassedToGraph_loop all_page_nodes (global_counts w) of
              Inl e \<Rightarrow> Inl e
            | Inr c \<Rightarrow> Inr (UpdateGlobalScenario (w\<lparr>global_counts := c\<rparr>))))"

definition OnTakenFromGraph :: "World \<Rightarrow> World" where
  "OnTakenFromGraph w = UpdateGlobalScenario (w\<lparr>global_counts := LoadingCounts_default\<rparr>)"

section \<open>The page collection that delivers the notifications\<close>

text \<open>
  Modelled from the spec: the graph and \<^verbatim>\<open>PageNodeImpl\<close> are not among the sources.
  The spec lists what the collaborator provides: the tracked pages, their three accessors,
  and "notification callbacks delivered synchronously on the owning sequence: page-added,
  page-about-to-be-removed, focus-changed, visibility-changed, loading-predicate-changed
  (with the previous predicate value supplied)", every notification reading the page's
  current attributes. The unit tests drive it through \<^verbatim>\<open>CreateNode\<close>, \<^verbatim>\<open>reset\<close>,
  \<^verbatim>\<open>SetIsFocused\<close>, \<^verbatim>\<open>SetIsVisible\<close> and \<^verbatim>\<open>SetLoadingState\<close>. A page is named by
  its position in the list of tracked pages; a setter that does not change the attribute,
  or names no tracked page, notifies nobody.
\<close>

type_synonym Graph = "PageNode list"

datatype GraphEvent =
    CreateNode PageNode
  | ResetNode nat
  | SetIsFocused nat bool
  | SetIsVisible nat bool
  | SetLoadingState nat LoadingState

definition remove_node :: "nat \<Rightarrow> Graph \<Rightarrow> Graph" where
  "remove_node i g = take i g @ drop (Suc i) g"

fun deliver :: "GraphEvent \<Rightarrow> Graph \<Rightarrow> World \<Rightarrow> fatal + Graph \<times> World" where
  "deliver (CreateNode p) g w =
     (case OnPageNodeAdded p w of
        Inl e \<Rightarrow> Inl e
      | Inr w' \<Rightarrow> Inr (g @ [p], w'))"
| "deliver (ResetNode i) g w =
     (if i < length g
      then (case OnBeforePageNodeRemoved (g ! i) w of
              Inl e \<Rightarrow> Inl e
            | Inr w' \<Rightarrow> Inr (remove_node i g, w'))
      else Inr (g, w))"
| "deliver (SetIsFocused i b) g w =
     (if i < length g \<and> is_focused (g ! i) \<noteq> b
      then (case OnIsFocusedChanged ((g ! i)\<lparr>is_focused := b\<rparr>) w of
              Inl e \<Rightarrow> Inl e
            | Inr w' \<Rightarrow> Inr (g[i := (g ! i)\<lparr>is_focused := b\<rparr>], w'))
      else Inr (g, w))"
| "deliver (SetIsVisible i b) g w =
     (if i < length g \<and> is_visible (g ! i) \<noteq> b
      then (case OnIsVisibleChanged ((g ! i)\<lparr>is_visible := b\<rparr>) w of
              Inl e \<Rightarrow> Inl e
            | Inr w' \<Rightarrow> Inr (g[i := (g ! i)\<lparr>is_visible := b\<rparr>], w'))
      else Inr (g, w))"
| "deliver (SetLoadingState i s) g w =
     (if i < length g \<and> loading_state (g ! i) \<noteq> s
      then (case OnLoadingStateChanged ((g ! i)\<lparr>loading_state := s\<rparr>)
                   (loading_state (g ! i)) w of
              Inl e \<Rightarrow> Inl e
            | Inr w' \<Rightarrow> Inr (g[i := (g ! i)\<lparr>loading_state := s\<rparr>], w'))
      else Inr (g, w))"

fun run :: "GraphEvent list \<Rightarrow> Graph \<times> World \<Rightarrow> fatal + Graph \<times> World" where
  "run [] s = Inr s"
| "run (e # es) s =
     (case deliver e (fst s) (snd s) of
        Inl x \<Rightarrow> Inl x
      | Inr s' \<Rightarrow> run es s')"

text \<open>The number of tracked pages that satisfy a predicate.\<close>

definition count_pages :: "(PageNode \<Rightarrow> bool) \<Rightarrow> Graph \<Rightarrow> nat" where
  "count_pages P g = length (filter P g)"

definition page_loading :: "PageNode \<Rightarrow> bool" where
  "page_loading p = StateIsLoading (loading_state p)"

definition page_visible_loading :: "PageNode \<Rightarrow> bool" where
  "page_visible_loading p = (StateIsLoading (loading_state p) \<and> is_visible p)"

definition page_focused_loading :: "PageNode \<Rightarrow> bool" where
  "page_focused_loading p = (StateIsLoading (loading_state p) \<and> is_focused p)"

text \<open>The counters agree with the tracked pages.\<close>

definition counts_match :: "Graph \<Rightarrow> LoadingCounts \<Rightarrow> bool" where
  "counts_match g c =
     (unat (loading_pages c) = count_pages page_loading g \<and>
      unat (visible_loading_pages c) = count_pages page_visible_loading g \<and>
      unat (focused_loading_pages c) = count_pages page_focused_loading g)"

text \<open>Every tracked page that is loading and focused is also visible.\<close>

definition focused_pages_visible :: "Graph \<Rightarrow> bool" where
  "focused_pages_visible g =
     (\<forall>p \<in> set g. StateIsLoading (loading_state p) \<and> is_focused p \<longrightarrow> is_visible p)"

text \<open>
  The order of the three counters: the first two inequalities always, the third when the
  pages counted keep focus within visibility.
\<close>

definition counts_ordered :: "Graph \<Rightarrow> LoadingCounts \<Rightarrow> bool" where
  "counts_ordered g c =
     (visible_loading_pages c \<le> loading_pages c \<and>
      focused_loading_pages c \<le> loading_pages c \<and>
      (focused_pages_visible g \<longrightarrow> focused_loading_pages c \<le> visible_loading_pages c))"

definition size_t_max :: size_t where
  "size_t_max = 18446744073709551615"

section \<open>Checked arithmetic\<close>

lemma unat_size_t_max: "unat size_t_max = 2 ^ 64 - 1"
  by (simp add: size_t_max_def)

lemma size_t_max_iff: "n = size_t_max \<longleftrightarrow> unat n = 2 ^ 64 - 1"
  using word_unat_eq_iff [of n size_t_max] by (simp add: unat_size_t_max)

lemma unat_succ_less_iff: "unat (n :: size_t) + 1 < 2 ^ 64 \<longleftrightarrow> n \<noteq> size_t_max"
  using unsigned_less [of n, where ?'a = nat] by (auto simp: size_t_max_iff)

lemma unat_succ: "(n :: size_t) \<noteq> size_t_max \<Longrightarrow> unat (n + 1) = Suc (unat n)"
  using unat_add_lem [of n 1] unat_succ_less_iff [of n] by simp

lemma unat_pred: "(n :: size_t) \<noteq> 0 \<Longrightarrow> Suc (unat (n - 1)) = unat n"
  using unat_minus_one [of n] unat_gt_0 [of n] by simp

lemma CheckIncrement_Inr:
  "CheckIncrement n = Inr m \<longleftrightarrow> n \<noteq> size_t_max \<and> m = n + 1"
  using unat_succ_less_iff [of n]
  by (auto simp: CheckIncrement_def CheckAdd_def ValueOrDie_def)

lemma CheckIncrement_Inl:
  "CheckIncrement n = Inl e \<longleftrightarrow> n = size_t_max \<and> e = CheckedNumericDied"
  using unat_succ_less_iff [of n]
  by (auto simp: CheckIncrement_def CheckAdd_def ValueOrDie_def)

lemma CheckDecrement_Inr:
  "CheckDecrement n = Inr m \<longleftrightarrow> n \<noteq> 0 \<and> m = n - 1"
  using unat_gt_0 [of n]
  by (auto simp: CheckDecrement_def CheckSub_def ValueOrDie_def Suc_le_eq)

lemma CheckDecrement_Inl:
  "CheckDecrement n = Inl e \<longleftrightarrow> n = 0 \<and> e = CheckedNumericDied"
  using unat_gt_0 [of n]
  by (auto simp: CheckDecrement_def CheckSub_def ValueOrDie_def Suc_le_eq)

lemma Increment_Inr_iff:
  "IncrementLoadingPageCounts visible focused c = Inr c' \<longleftrightarrow>
     loading_pages c \<noteq> size_t_max \<and>
     (visible \<longrightarrow> visible_loading_pages c \<noteq> size_t_max) \<and>
     (focused \<longrightarrow> focused_loading_pages c \<noteq> size_t_max) \<and>
     c' = \<lparr>focused_loading_pages =
             (if focused then focused_loading_pages c + 1 else focused_loading_pages c),
           visible_loading_pages =
             (if visible then visible_loading_pages c + 1 else visible_loading_pages c),
           loading_pages = loading_pages c + 1\<rparr>"
  by (auto simp: IncrementLoadingPageCounts_def CheckIncrement_Inr CheckIncrement_Inl
           split: sum.splits)

lemma Increment_Inl_iff:
  "IncrementLoadingPageCounts visible focused c = Inl e \<longleftrightarrow>
     e = CheckedNumericDied \<and>
     (loading_pages c = size_t_max \<or>
      visible \<and> visible_loading_pages c = size_t_max \<or>
      focused \<and> focused_loading_pages c = size_t_max)"
  by (auto simp: IncrementLoadingPageCounts_def CheckIncrement_Inr CheckIncrement_Inl
           split: sum.splits)

lemma Decrement_Inr_iff:
  "DecrementLoadingPageCounts visible focused c = Inr c' \<longleftrightarrow>
     loading_pages c \<noteq> 0 \<and>
     (visible \<longrightarrow> visible_loading_pages c \<noteq> 0) \<and>
     (focused \<longrightarrow> focused_loading_pages c \<noteq> 0) \<and>
     c' = \<lparr>focused_loading_pages =
             (if focused then focused_loading_pages c - 1 else focused_loading_pages c),
           visible_loading_pages =
             (if visible then visible_loading_pages c - 1 else visible_loading_pages c),
           loading_pages = loading_pages c - 1\<rparr>"
  by (auto simp: DecrementLoadingPageCounts_def CheckDecrement_Inr CheckDecrement_Inl
           split: sum.splits)

lemma Decrement_Inl_iff:
  "DecrementLoadingPageCounts visible focused c = Inl e \<longleftrightarrow>
     e = CheckedNumericDied \<and>
     (loading_pages c = 0 \<or>
      visible \<and> visible_loading_pages c = 0 \<or>
      focused \<and> focused_loading_pages c = 0)"
  by (auto simp: DecrementLoadingPageCounts_def CheckDecrement_Inr CheckDecrement_Inl
           split: sum.splits)

lemma Increment_unat:
  assumes "IncrementLoadingPageCounts visible focused c = Inr c'"
  shows "unat (loading_pages c') = unat (loading_pages c) + 1"
    and "unat (visible_loading_pages c') =
           unat (visible_loading_pages c) + (if visible then 1 else 0)"
    and "unat (focused_loading_pages c') =
           unat (focused_loading_pages c) + (if focused then 1 else 0)"
  using assms by (auto simp: Increment_Inr_iff unat_succ)

lemma Decrement_unat:
  assumes "DecrementLoadingPageCounts visible focused c = Inr c'"
  shows "unat (loading_pages c') + 1 = unat (loading_pages c)"
    and "unat (visible_loading_pages c') + (if visible then 1 else 0) =
           unat (visible_loading_pages c)"
    and "unat (focused_loading_pages c') + (if focused then 1 else 0) =
           unat (focused_loading_pages c)"
  using assms by (auto simp: Decrement_Inr_iff unat_pred)

lemma size_t_max_greatest: "(n :: size_t) \<le> size_t_max"
  using unsigned_less [of n, where ?'a = nat]
  by (simp add: word_le_nat_alt unat_size_t_max)

lemma UpdateGlobalScenario_simps:
  "global_counts (UpdateGlobalScenario w) = global_counts w"
  "global_loading_scenario (UpdateGlobalScenario w) = GetScenario (global_counts w)"
  "scenario_stores (UpdateGlobalScenario w) =
     scenario_stores w @ [GetScenario (global_counts w)]"
  by (simp_all add: UpdateGlobalScenario_def SetGlobalLoadingScenario_def)

section \<open>The claims about the counting core\<close>

text \<open>
  C1. For every state of the counters, \<^verbatim>\<open>GetScenario\<close> returns
  \<^verbatim>\<open>kFocusedPageLoading\<close> if \<^verbatim>\<open>focused_loading_pages > 0\<close>; otherwise
  \<^verbatim>\<open>kVisiblePageLoading\<close> if \<^verbatim>\<open>visible_loading_pages > 0\<close>; otherwise
  \<^verbatim>\<open>kBackgroundPageLoading\<close> if \<^verbatim>\<open>loading_pages > 0\<close>; otherwise
  \<^verbatim>\<open>kNoPageLoading\<close>. The counters are read as the natural numbers they hold.
\<close>

theorem GetScenario_precedence:
  "GetScenario c =
     (if 0 < unat (focused_loading_pages c) then kFocusedPageLoading
      else if 0 < unat (visible_loading_pages c) then kVisiblePageLoading
      else if 0 < unat (loading_pages c) then kBackgroundPageLoading
      else kNoPageLoading)"
  by (simp add: GetScenario_def unat_gt_0 word_greater_zero_iff)

theorem GetScenario_precedence_witness:
  "GetScenario \<lparr>focused_loading_pages = 0, visible_loading_pages = 2, loading_pages = 5\<rparr> =
     kVisiblePageLoading \<and>
   GetScenario \<lparr>focused_loading_pages = 1, visible_loading_pages = 0, loading_pages = 5\<rparr> =
     kFocusedPageLoading \<and>
   GetScenario \<lparr>focused_loading_pages = 0, visible_loading_pages = 0, loading_pages = 5\<rparr> =
     kBackgroundPageLoading \<and>
   GetScenario \<lparr>focused_loading_pages = 0, visible_loading_pages = 0, loading_pages = 0\<rparr> =
     kNoPageLoading"
  using
    GetScenario_precedence
      [of "\<lparr>focused_loading_pages = 0, visible_loading_pages = 2, loading_pages = 5\<rparr>"]
    GetScenario_precedence
      [of "\<lparr>focused_loading_pages = 1, visible_loading_pages = 0, loading_pages = 5\<rparr>"]
    GetScenario_precedence
      [of "\<lparr>focused_loading_pages = 0, visible_loading_pages = 0, loading_pages = 5\<rparr>"]
    GetScenario_precedence
      [of "\<lparr>focused_loading_pages = 0, visible_loading_pages = 0, loading_pages = 0\<rparr>"]
  by simp

text \<open>
  C7. \<^verbatim>\<open>StateIsLoading\<close> is true exactly for \<^verbatim>\<open>kLoading\<close> and \<^verbatim>\<open>kLoadedBusy\<close>,
  false exactly for \<^verbatim>\<open>kLoadingNotStarted\<close>, \<^verbatim>\<open>kLoadingTimedOut\<close> and
  \<^verbatim>\<open>kLoadedIdle\<close>, and these five states are all the states there are.
\<close>

theorem StateIsLoading_exact:
  "(StateIsLoading s \<longleftrightarrow> s = kLoading \<or> s = kLoadedBusy) \<and>
   ((\<not> StateIsLoading s) \<longleftrightarrow>
      s = kLoadingNotStarted \<or> s = kLoadingTimedOut \<or> s = kLoadedIdle) \<and>
   (UNIV :: LoadingState set) =
      {kLoadingNotStarted, kLoading, kLoadingTimedOut, kLoadedBusy, kLoadedIdle}"
proof -
  have "(UNIV :: LoadingState set) =
      {kLoadingNotStarted, kLoading, kLoadingTimedOut, kLoadedBusy, kLoadedIdle}"
  proof -
    have "x \<in> {kLoadingNotStarted, kLoading, kLoadingTimedOut, kLoadedBusy, kLoadedIdle}"
      for x :: LoadingState
      by (cases x) simp_all
    then show ?thesis by blast
  qed
  then show ?thesis by (cases s) simp_all
qed

theorem StateIsLoading_exact_witness:
  "StateIsLoading kLoading \<and> StateIsLoading kLoadedBusy \<and>
   \<not> StateIsLoading kLoadingNotStarted \<and> \<not> StateIsLoading kLoadingTimedOut \<and>
   \<not> StateIsLoading kLoadedIdle"
  using StateIsLoading_exact [of kLoading] StateIsLoading_exact [of kLoadedBusy]
    StateIsLoading_exact [of kLoadingNotStarted] StateIsLoading_exact [of kLoadingTimedOut]
    StateIsLoading_exact [of kLoadedIdle]
  by simp

text \<open>
  C4. \<^verbatim>\<open>IncrementLoadingPageCounts\<close> fails fatally exactly when a counter it touches
  (\<^verbatim>\<open>loading_pages\<close> always, \<^verbatim>\<open>visible_loading_pages\<close> if \<^verbatim>\<open>visible\<close>,
  \<^verbatim>\<open>focused_loading_pages\<close> if \<^verbatim>\<open>focused\<close>) holds the greatest value of
  \<^verbatim>\<open>size_t\<close>, and \<^verbatim>\<open>DecrementLoadingPageCounts\<close> exactly when a counter it touches
  is zero. When they return, every touched counter has moved by exactly one as a natural
  number (no wrap-around, nothing below zero) and the other counters are unchanged.
\<close>

theorem Increment_Decrement_checked:
  "(\<forall>n :: size_t. n \<le> size_t_max) \<and> unat size_t_max = 2 ^ 64 - 1 \<and>
   (IncrementLoadingPageCounts visible focused c = Inl CheckedNumericDied \<longleftrightarrow>
      loading_pages c = size_t_max \<or>
      visible \<and> visible_loading_pages c = size_t_max \<or>
      focused \<and> focused_loading_pages c = size_t_max) \<and>
   (DecrementLoadingPageCounts visible focused c = Inl CheckedNumericDied \<longleftrightarrow>
      loading_pages c = 0 \<or>
      visible \<and> visible_loading_pages c = 0 \<or>
      focused \<and> focused_loading_pages c = 0) \<and>
   (IncrementLoadingPageCounts visible focused c \<noteq> Inl CheckedNumericDied \<longrightarrow>
      (\<exists>c'. IncrementLoadingPageCounts visible focused c = Inr c' \<and>
         unat (loading_pages c') = unat (loading_pages c) + 1 \<and>
         unat (visible_loading_pages c') =
           unat (visible_loading_pages c) + (if visible then 1 else 0) \<and>
         unat (focused_loading_pages c') =
           unat (focused_loading_pages c) + (if focused then 1 else 0))) \<and>
   (DecrementLoadingPageCounts visible focused c \<noteq> Inl CheckedNumericDied \<longrightarrow>
      (\<exists>c'. DecrementLoadingPageCounts visible focused c = Inr c' \<and>
         unat (loading_pages c') + 1 = unat (loading_pages c) \<and>
         unat (visible_loading_pages c') + (if visible then 1 else 0) =
           unat (visible_loading_pages c) \<and>
         unat (focused_loading_pages c') + (if focused then 1 else 0) =
           unat (focused_loading_pages c)))"
proof -
  have inc: "\<exists>c'. IncrementLoadingPageCounts visible focused c = Inr c' \<and>
         unat (loading_pages c') = unat (loading_pages c) + 1 \<and>
         unat (visible_loading_pages c') =
           unat (visible_loading_pages c) + (if visible then 1 else 0) \<and>
         unat (focused_loading_pages c') =
           unat (focused_loading_pages c) + (if focused then 1 else 0)"
    if "IncrementLoadingPageCounts visible focused c \<noteq> Inl CheckedNumericDied"
  proof (cases "IncrementLoadingPageCounts visible focused c")
    case (Inl e)
    with that show ?thesis by (simp add: Increment_Inl_iff)
  next
    case (Inr c')
    then show ?thesis using Increment_unat [OF Inr] by simp
  qed
  have dec: "\<exists>c'. DecrementLoadingPageCounts visible focused c = Inr c' \<and>
         unat (loading_pages c') + 1 = unat (loading_pages c) \<and>
         unat (visible_loading_pages c') + (if visible then 1 else 0) =
           unat (visible_loading_pages c) \<and>
         unat (focused_loading_pages c') + (if focused then 1 else 0) =
           unat (focused_loading_pages c)"
    if "DecrementLoadingPageCounts visible focused c \<noteq> Inl CheckedNumericDied"
  proof (cases "DecrementLoadingPageCounts visible focused c")
    case (Inl e)
    with that show ?thesis by (simp add: Decrement_Inl_iff)
  next
    case (Inr c')
    then show ?thesis using Decrement_unat [OF Inr] by simp
  qed
  show ?thesis
    using inc dec
    by (simp add: Increment_Inl_iff Decrement_Inl_iff size_t_max_greatest unat_size_t_max)
qed

theorem Increment_Decrement_checked_witness:
  "IncrementLoadingPageCounts True False
     \<lparr>focused_loading_pages = 0, visible_loading_pages = size_t_max,
      loading_pages = 7\<rparr> = Inl CheckedNumericDied \<and>
   DecrementLoadingPageCounts False True
     \<lparr>focused_loading_pages = 0, visible_loading_pages = 3,
      loading_pages = 7\<rparr> = Inl CheckedNumericDied \<and>
   IncrementLoadingPageCounts True False
     \<lparr>focused_loading_pages = 0, visible_loading_pages = 3, loading_pages = 7\<rparr> =
     Inr \<lparr>focused_loading_pages = 0, visible_loading_pages = 4, loading_pages = 8\<rparr> \<and>
   DecrementLoadingPageCounts True False
     \<lparr>focused_loading_pages = 0, visible_loading_pages = 3, loading_pages = 7\<rparr> =
     Inr \<lparr>focused_loading_pages = 0, visible_loading_pages = 2, loading_pages = 6\<rparr>"
  using
    Increment_Decrement_checked [of True False
      "\<lparr>focused_loading_pages = 0, visible_loading_pages = size_t_max, loading_pages = 7\<rparr>"]
    Increment_Decrement_checked [of False True
      "\<lparr>focused_loading_pages = 0, visible_loading_pages = 3, loading_pages = 7\<rparr>"]
  by (simp add: Increment_Inr_iff Decrement_Inr_iff size_t_max_def)

lemma GetScenario_default: "GetScenario LoadingCounts_default = kNoPageLoading"
  by (simp add: GetScenario_def LoadingCounts_default_def)

section \<open>The claims about the event adapter\<close>

text \<open>
  C6. For every state of the counters and every published scenario,
  \<^verbatim>\<open>OnTakenFromGraph\<close> leaves the three counters at zero and the published scenario at
  \<^verbatim>\<open>kNoPageLoading\<close>, by one store of that value.
\<close>

theorem OnTakenFromGraph_resets:
  "focused_loading_pages (global_counts (OnTakenFromGraph w)) = 0 \<and>
   visible_loading_pages (global_counts (OnTakenFromGraph w)) = 0 \<and>
   loading_pages (global_counts (OnTakenFromGraph w)) = 0 \<and>
   global_loading_scenario (OnTakenFromGraph w) = kNoPageLoading \<and>
   scenario_stores (OnTakenFromGraph w) = scenario_stores w @ [kNoPageLoading]"
  by (simp add: OnTakenFromGraph_def UpdateGlobalScenario_simps GetScenario_default)
    (simp add: LoadingCounts_default_def)

theorem OnTakenFromGraph_resets_witness:
  "OnTakenFromGraph
     \<lparr>global_counts =
        \<lparr>focused_loading_pages = 1, visible_loading_pages = 2, loading_pages = 3\<rparr>,
      global_loading_scenario = kFocusedPageLoading,
      scenario_stores = [kFocusedPageLoading]\<rparr> =
   \<lparr>global_counts =
      \<lparr>focused_loading_pages = 0, visible_loading_pages = 0, loading_pages = 0\<rparr>,
    global_loading_scenario = kNoPageLoading,
    scenario_stores = [kFocusedPageLoading, kNoPageLoading]\<rparr>"
  using OnTakenFromGraph_resets
    [of "\<lparr>global_counts =
        \<lparr>focused_loading_pages = 1, visible_loading_pages = 2, loading_pages = 3\<rparr>,
      global_loading_scenario = kFocusedPageLoading,
      scenario_stores = [kFocusedPageLoading]\<rparr>"]
  by (simp add: OnTakenFromGraph_def UpdateGlobalScenario_def SetGlobalLoadingScenario_def
      LoadingCounts_default_def GetScenario_def)

text \<open>
  C8. A loading-state change whose previous and current states agree on the loading
  predicate leaves the whole state as it was: the counters are unchanged and nothing is
  stored to the published cell. When the predicate became true the handler increments
  with the page's current visible and focused flags: it fails fatally exactly when a
  counter it touches is at the greatest value of \<^verbatim>\<open>size_t\<close>, and otherwise
  \<^verbatim>\<open>loading_pages\<close> is one higher, \<^verbatim>\<open>visible_loading_pages\<close> one higher if the page
  is visible, \<^verbatim>\<open>focused_loading_pages\<close> one higher if it is focused, and the scenario
  of the new counters is stored once. When the predicate became false it decrements in
  the same way: it fails fatally exactly when a counter it touches is zero, and otherwise
  the touched counters are one lower and the scenario of the new counters is stored once.
\<close>

theorem OnLoadingStateChanged_effect:
  "(StateIsLoading (loading_state page_node) = StateIsLoading previous_state \<longrightarrow>
      OnLoadingStateChanged page_node previous_state w = Inr w) \<and>
   (StateIsLoading (loading_state page_node) \<and> \<not> StateIsLoading previous_state \<longrightarrow>
      (OnLoadingStateChanged page_node previous_state w = Inl CheckedNumericDied \<longleftrightarrow>
         loading_pages (global_counts w) = size_t_max \<or>
         is_visible page_node \<and> visible_loading_pages (global_counts w) = size_t_max \<or>
         is_focused page_node \<and> focused_loading_pages (global_counts w) = size_t_max) \<and>
      (OnLoadingStateChanged page_node previous_state w \<noteq> Inl CheckedNumericDied \<longrightarrow>
         (\<exists>w'. OnLoadingStateChanged page_node previous_state w = Inr w' \<and>
            unat (loading_pages (global_counts w')) =
              unat (loading_pages (global_counts w)) + 1 \<and>
            unat (visible_loading_pages (global_counts w')) =
              unat (visible_loading_pages (global_counts w)) +
                (if is_visible page_node then 1 else 0) \<and>
            unat (focused_loading_pages (global_counts w')) =
              unat (focused_loading_pages (global_counts w)) +
                (if is_focused page_node then 1 else 0) \<and>
            global_loading_scenario w' = GetScenario (global_counts w') \<and>
            scenario_stores w' = scenario_stores w @ [GetScenario (global_counts w')]))) \<and>
   (\<not> StateIsLoading (loading_state page_node) \<and> StateIsLoading previous_state \<longrightarrow>
      (OnLoadingStateChanged page_node previous_state w = Inl CheckedNumericDied \<longleftrightarrow>
         loading_pages (global_counts w) = 0 \<or>
         is_visible page_node \<and> visible_loading_pages (global_counts w) = 0 \<or>
         is_focused page_node \<and> focused_loading_pages (global_counts w) = 0) \<and>
      (OnLoadingStateChanged page_node previous_state w \<noteq> Inl CheckedNumericDied \<longrightarrow>
         (\<exists>w'. OnLoadingStateChanged page_node previous_state w = Inr w' \<and>
            unat (loading_pages (global_counts w')) + 1 =
              unat (loading_pages (global_counts w)) \<and>
            unat (visible_loading_pages (global_counts w')) +
                (if is_visible page_node then 1 else 0) =
              unat (visible_loading_pages (global_counts w)) \<and>
            unat (focused_loading_pages (global_counts w')) +
                (if is_focused page_node then 1 else 0) =
              unat (focused_loading_pages (global_counts w)) \<and>
            global_loading_scenario w' = GetScenario (global_counts w') \<and>
            scenario_stores w' = scenario_stores w @ [GetScenario (global_counts w')])))"
proof -
  let ?v = "is_visible page_node" and ?f = "is_focused page_node"
  let ?c = "global_counts w"
  let ?r = "OnLoadingStateChanged page_node previous_state w"
  have same: "?r = Inr w"
    if "StateIsLoading (loading_state page_node) = StateIsLoading previous_state"
    using that by (simp add: OnLoadingStateChanged_def)
  have started: "?r = (case IncrementLoadingPageCounts ?v ?f ?c of
           Inl e \<Rightarrow> Inl e
         | Inr c \<Rightarrow> Inr (UpdateGlobalScenario (w\<lparr>global_counts := c\<rparr>)))"
    if "StateIsLoading (loading_state page_node)" "\<not> StateIsLoading previous_state"
    using that by (simp add: OnLoadingStateChanged_def)
  have stopped: "?r = (case DecrementLoadingPageCounts ?v ?f ?c of
           Inl e \<Rightarrow> Inl e
         | Inr c \<Rightarrow> Inr (UpdateGlobalScenario (w\<lparr>global_counts := c\<rparr>)))"
    if "\<not> StateIsLoading (loading_state page_node)" "StateIsLoading previous_state"
    using that by (simp add: OnLoadingStateChanged_def)
  have inc_trap: "?r = Inl CheckedNumericDied \<longleftrightarrow>
         loading_pages ?c = size_t_max \<or> ?v \<and> visible_loading_pages ?c = size_t_max \<or>
         ?f \<and> focused_loading_pages ?c = size_t_max"
    if "StateIsLoading (loading_state page_node)" "\<not> StateIsLoading previous_state"
  proof (cases "IncrementLoadingPageCounts ?v ?f ?c")
    case (Inl e)
    with started [OF that] Increment_Inl_iff [of ?v ?f ?c e] show ?thesis by simp
  next
    case (Inr c)
    with started [OF that] Increment_Inl_iff [of ?v ?f ?c CheckedNumericDied]
    show ?thesis by simp
  qed
  have inc_ok: "\<exists>w'. ?r = Inr w' \<and>
            unat (loading_pages (global_counts w')) = unat (loading_pages ?c) + 1 \<and>
            unat (visible_loading_pages (global_counts w')) =
              unat (visible_loading_pages ?c) + (if ?v then 1 else 0) \<and>
            unat (focused_loading_pages (global_counts w')) =
              unat (focused_loading_pages ?c) + (if ?f then 1 else 0) \<and>
            global_loading_scenario w' = GetScenario (global_counts w') \<and>
            scenario_stores w' = scenario_stores w @ [GetScenario (global_counts w')]"
    if "StateIsLoading (loading_state page_node)" "\<not> StateIsLoading previous_state"
      and "?r \<noteq> Inl CheckedNumericDied"
  proof (cases "IncrementLoadingPageCounts ?v ?f ?c")
    case (Inl e)
    with started [OF that(1,2)] that(3) Increment_Inl_iff [of ?v ?f ?c e]
    show ?thesis by simp
  next
    case (Inr c)
    with started [OF that(1,2)] Increment_unat [OF Inr] show ?thesis
      by (simp add: UpdateGlobalScenario_simps)
  qed
  have dec_trap: "?r = Inl CheckedNumericDied \<longleftrightarrow>
         loading_pages ?c = 0 \<or> ?v \<and> visible_loading_pages ?c = 0 \<or>
         ?f \<and> focused_loading_pages ?c = 0"
    if "\<not> StateIsLoading (loading_state page_node)" "StateIsLoading previous_state"
  proof (cases "DecrementLoadingPageCounts ?v ?f ?c")
    case (Inl e)
    with stopped [OF that] Decrement_Inl_iff [of ?v ?f ?c e] show ?thesis by simp
  next
    case (Inr c)
    with stopped [OF that] Decrement_Inl_iff [of ?v ?f ?c CheckedNumericDied]
    show ?thesis by simp
  qed
  have dec_ok: "\<exists>w'. ?r = Inr w' \<and>
            unat (loading_pages (global_counts w')) + 1 = unat (loading_pages ?c) \<and>
            unat (visible_loading_pages (global_counts w')) + (if ?v then 1 else 0) =
              unat (visible_loading_pages ?c) \<and>
            unat (focused_loading_pages (global_counts w')) + (if ?f then 1 else 0) =
              unat (focused_loading_pages ?c) \<and>
            global_loading_scenario w' = GetScenario (global_counts w') \<and>
            scenario_stores w' = scenario_stores w @ [GetScenario (global_counts w')]"
    if "\<not> StateIsLoading (loading_state page_node)" "StateIsLoading previous_state"
      and "?r \<noteq> Inl CheckedNumericDied"
  proof (cases "DecrementLoadingPageCounts ?v ?f ?c")
    case (Inl e)
    with stopped [OF that(1,2)] that(3) Decrement_Inl_iff [of ?v ?f ?c e]
    show ?thesis by simp
  next
    case (Inr c)
    with stopped [OF that(1,2)] Decrement_unat [OF Inr] show ?thesis
      by (simp add: UpdateGlobalScenario_simps)
  qed
  from same inc_trap inc_ok dec_trap dec_ok show ?thesis
    by blast
qed

theorem OnLoadingStateChanged_effect_witness:
  "OnLoadingStateChanged \<lparr>loading_state = kLoadedBusy, is_visible = True, is_focused = False\<rparr>
     kLoading
     \<lparr>global_counts =
        \<lparr>focused_loading_pages = 1, visible_loading_pages = 2, loading_pages = 3\<rparr>,
      global_loading_scenario = kFocusedPageLoading, scenario_stores = []\<rparr> =
   Inr \<lparr>global_counts =
        \<lparr>focused_loading_pages = 1, visible_loading_pages = 2, loading_pages = 3\<rparr>,
      global_loading_scenario = kFocusedPageLoading, scenario_stores = []\<rparr> \<and>
   OnLoadingStateChanged \<lparr>loading_state = kLoading, is_visible = True, is_focused = False\<rparr>
     kLoadingNotStarted
     \<lparr>global_counts =
        \<lparr>focused_loading_pages = 1, visible_loading_pages = 2, loading_pages = 3\<rparr>,
      global_loading_scenario = kFocusedPageLoading, scenario_stores = []\<rparr> =
   Inr \<lparr>global_counts =
        \<lparr>focused_loading_pages = 1, visible_loading_pages = 3, loading_pages = 4\<rparr>,
      global_loading_scenario = kFocusedPageLoading,
      scenario_stores = [kFocusedPageLoading]\<rparr> \<and>
   OnLoadingStateChanged \<lparr>loading_state = kLoadedIdle, is_visible = True, is_focused = False\<rparr>
     kLoadedBusy
     \<lparr>global_counts =
        \<lparr>focused_loading_pages = 0, visible_loading_pages = 2, loading_pages = 3\<rparr>,
      global_loading_scenario = kVisiblePageLoading, scenario_stores = []\<rparr> =
   Inr \<lparr>global_counts =
        \<lparr>focused_loading_pages = 0, visible_loading_pages = 1, loading_pages = 2\<rparr>,
      global_loading_scenario = kVisiblePageLoading,
      scenario_stores = [kVisiblePageLoading]\<rparr> \<and>
   OnLoadingStateChanged \<lparr>loading_state = kLoadingTimedOut, is_visible = True, is_focused = False\<rparr>
     kLoading
     \<lparr>global_counts =
        \<lparr>focused_loading_pages = 0, visible_loading_pages = 0, loading_pages = 3\<rparr>,
      global_loading_scenario = kBackgroundPageLoading, scenario_stores = []\<rparr> =
   Inl CheckedNumericDied"
proof -
  let ?wa = "\<lparr>global_counts =
        \<lparr>focused_loading_pages = 1, visible_loading_pages = 2, loading_pages = 3\<rparr>,
      global_loading_scenario = kFocusedPageLoading, scenario_stores = []\<rparr>"
  let ?wb = "\<lparr>global_counts =
        \<lparr>focused_loading_pages = 0, visible_loading_pages = 2, loading_pages = 3\<rparr>,
      global_loading_scenario = kVisiblePageLoading, scenario_stores = []\<rparr>"
  let ?wc = "\<lparr>global_counts =
        \<lparr>focused_loading_pages = 0, visible_loading_pages = 0, loading_pages = 3\<rparr>,
      global_loading_scenario = kBackgroundPageLoading, scenario_stores = []\<rparr>"
  have i: "IncrementLoadingPageCounts True False
      \<lparr>focused_loading_pages = 1, visible_loading_pages = 2, loading_pages = 3\<rparr> =
    Inr \<lparr>focused_loading_pages = 1, visible_loading_pages = 3, loading_pages = 4\<rparr>"
    by (simp add: Increment_Inr_iff size_t_max_def)
  have d: "DecrementLoadingPageCounts True False
      \<lparr>focused_loading_pages = 0, visible_loading_pages = 2, loading_pages = 3\<rparr> =
    Inr \<lparr>focused_loading_pages = 0, visible_loading_pages = 1, loading_pages = 2\<rparr>"
    by (simp add: Decrement_Inr_iff)
  have t: "DecrementLoadingPageCounts True False
      \<lparr>focused_loading_pages = 0, visible_loading_pages = 0, loading_pages = 3\<rparr> =
    Inl CheckedNumericDied"
    by (simp add: Decrement_Inl_iff)
  show ?thesis
    using
      OnLoadingStateChanged_effect
        [of "\<lparr>loading_state = kLoadedBusy, is_visible = True, is_focused = False\<rparr>" kLoading
          ?wa]
      OnLoadingStateChanged_effect
        [of "\<lparr>loading_state = kLoading, is_visible = True, is_focused = False\<rparr>"
          kLoadingNotStarted ?wa]
      OnLoadingStateChanged_effect
        [of "\<lparr>loading_state = kLoadedIdle, is_visible = True, is_focused = False\<rparr>"
          kLoadedBusy ?wb]
      OnLoadingStateChanged_effect
        [of "\<lparr>loading_state = kLoadingTimedOut, is_visible = True, is_focused = False\<rparr>"
          kLoading ?wc]
    by (simp add: OnLoadingStateChanged_def UpdateGlobalScenario_def
        SetGlobalLoadingScenario_def GetScenario_def i d t)
qed

text \<open>
  C9. \<^verbatim>\<open>OnPassedToGraph\<close> fails fatally on a \<^verbatim>\<open>CHECK\<close> if at entry some counter is
  not zero or the published scenario is not \<^verbatim>\<open>kNoPageLoading\<close>; it returns only when
  all three counters were zero and the published scenario was \<^verbatim>\<open>kNoPageLoading\<close>.
\<close>

theorem OnPassedToGraph_checks:
  "(focused_loading_pages (global_counts w) \<noteq> 0 \<or>
    visible_loading_pages (global_counts w) \<noteq> 0 \<or>
    loading_pages (global_counts w) \<noteq> 0 \<or>
    global_loading_scenario w \<noteq> kNoPageLoading \<longrightarrow>
      OnPassedToGraph all_page_nodes w = Inl CheckFailed) \<and>
   (\<forall>w'. OnPassedToGraph all_page_nodes w = Inr w' \<longrightarrow>
      focused_loading_pages (global_counts w) = 0 \<and>
      visible_loading_pages (global_counts w) = 0 \<and>
      loading_pages (global_counts w) = 0 \<and>
      global_loading_scenario w = kNoPageLoading)"
proof -
  have "global_counts w = LoadingCounts_default \<longleftrightarrow>
      focused_loading_pages (global_counts w) = 0 \<and>
      visible_loading_pages (global_counts w) = 0 \<and>
      loading_pages (global_counts w) = 0"
    by (cases "global_counts w") (simp add: LoadingCounts_default_def)
  then show ?thesis
    by (auto simp: OnPassedToGraph_def split: if_splits)
qed

theorem OnPassedToGraph_checks_witness:
  "OnPassedToGraph [\<lparr>loading_state = kLoading, is_visible = True, is_focused = False\<rparr>]
     \<lparr>global_counts =
        \<lparr>focused_loading_pages = 0, visible_loading_pages = 0, loading_pages = 1\<rparr>,
      global_loading_scenario = kNoPageLoading, scenario_stores = []\<rparr> = Inl CheckFailed \<and>
   OnPassedToGraph [\<lparr>loading_state = kLoading, is_visible = True, is_focused = False\<rparr>]
     \<lparr>global_counts =
        \<lparr>focused_loading_pages = 0, visible_loading_pages = 0, loading_pages = 0\<rparr>,
      global_loading_scenario = kBackgroundPageLoading, scenario_stores = []\<rparr> =
     Inl CheckFailed \<and>
   OnPassedToGraph [\<lparr>loading_state = kLoading, is_visible = True, is_focused = False\<rparr>]
     \<lparr>global_counts =
        \<lparr>focused_loading_pages = 0, visible_loading_pages = 0, loading_pages = 0\<rparr>,
      global_loading_scenario = kNoPageLoading, scenario_stores = []\<rparr> =
     Inr \<lparr>global_counts =
          \<lparr>focused_loading_pages = 0, visible_loading_pages = 1, loading_pages = 1\<rparr>,
        global_loading_scenario = kVisiblePageLoading,
        scenario_stores = [kVisiblePageLoading]\<rparr>"
proof -
  have inc: "IncrementLoadingPageCounts True False
      \<lparr>focused_loading_pages = 0, visible_loading_pages = 0, loading_pages = 0\<rparr> =
    Inr \<lparr>focused_loading_pages = 0, visible_loading_pages = 1, loading_pages = 1\<rparr>"
    by (simp add: Increment_Inr_iff size_t_max_def)
  show ?thesis
  using
    OnPassedToGraph_checks
      [of "\<lparr>global_counts =
            \<lparr>focused_loading_pages = 0, visible_loading_pages = 0, loading_pages = 1\<rparr>,
          global_loading_scenario = kNoPageLoading, scenario_stores = []\<rparr>"
        "[\<lparr>loading_state = kLoading, is_visible = True, is_focused = False\<rparr>]"]
    OnPassedToGraph_checks
      [of "\<lparr>global_counts =
            \<lparr>focused_loading_pages = 0, visible_loading_pages = 0, loading_pages = 0\<rparr>,
          global_loading_scenario = kBackgroundPageLoading, scenario_stores = []\<rparr>"
        "[\<lparr>loading_state = kLoading, is_visible = True, is_focused = False\<rparr>]"]
  by (simp add: OnPassedToGraph_def LoadingCounts_default_def inc
      UpdateGlobalScenario_def SetGlobalLoadingScenario_def GetScenario_def)
qed

text \<open>
  C10. For a page that does not satisfy the loading predicate, \<^verbatim>\<open>OnPageNodeAdded\<close>
  leaves the three counters unchanged and still stores the scenario derived from them to
  the published cell, whereas \<^verbatim>\<open>OnBeforePageNodeRemoved\<close> leaves the whole state,
  counters and cell, untouched and stores nothing.
\<close>

theorem not_loading_added_removed:
  assumes "\<not> StateIsLoading (loading_state page_node)"
  shows "OnPageNodeAdded page_node w =
           Inr (w\<lparr>global_loading_scenario := GetScenario (global_counts w),
                  scenario_stores := scenario_stores w @ [GetScenario (global_counts w)]\<rparr>) \<and>
         OnBeforePageNodeRemoved page_node w = Inr w"
  using assms
  by (simp add: OnPageNodeAdded_def OnBeforePageNodeRemoved_def UpdateGlobalScenario_def
      SetGlobalLoadingScenario_def)

theorem not_loading_added_removed_witness:
  "\<not> StateIsLoading (loading_state
        \<lparr>loading_state = kLoadedIdle, is_visible = True, is_focused = True\<rparr>) \<and>
   OnPageNodeAdded \<lparr>loading_state = kLoadedIdle, is_visible = True, is_focused = True\<rparr>
     \<lparr>global_counts =
        \<lparr>focused_loading_pages = 0, visible_loading_pages = 0, loading_pages = 1\<rparr>,
      global_loading_scenario = kBackgroundPageLoading,
      scenario_stores = [kBackgroundPageLoading]\<rparr> =
     Inr \<lparr>global_counts =
          \<lparr>focused_loading_pages = 0, visible_loading_pages = 0, loading_pages = 1\<rparr>,
        global_loading_scenario = kBackgroundPageLoading,
        scenario_stores = [kBackgroundPageLoading, kBackgroundPageLoading]\<rparr> \<and>
   OnBeforePageNodeRemoved \<lparr>loading_state = kLoadedIdle, is_visible = True, is_focused = True\<rparr>
     \<lparr>global_counts =
        \<lparr>focused_loading_pages = 0, visible_loading_pages = 0, loading_pages = 1\<rparr>,
      global_loading_scenario = kBackgroundPageLoading,
      scenario_stores = [kBackgroundPageLoading]\<rparr> =
     Inr \<lparr>global_counts =
          \<lparr>focused_loading_pages = 0, visible_loading_pages = 0, loading_pages = 1\<rparr>,
        global_loading_scenario = kBackgroundPageLoading,
        scenario_stores = [kBackgroundPageLoading]\<rparr>"
proof -
  have h: "\<not> StateIsLoading (loading_state
        \<lparr>loading_state = kLoadedIdle, is_visible = True, is_focused = True\<rparr>)"
    by simp
  show ?thesis
    using h not_loading_added_removed [OF h, of
        "\<lparr>global_counts =
            \<lparr>focused_loading_pages = 0, visible_loading_pages = 0, loading_pages = 1\<rparr>,
          global_loading_scenario = kBackgroundPageLoading,
          scenario_stores = [kBackgroundPageLoading]\<rparr>"]
    by (simp add: GetScenario_def)
qed

section \<open>Counting the tracked pages\<close>

lemma count_pages_Nil: "count_pages P [] = 0"
  by (simp add: count_pages_def)

lemma count_pages_Cons:
  "count_pages P (p # g) = (if P p then 1 else 0) + count_pages P g"
  by (simp add: count_pages_def)

lemma count_pages_snoc:
  "count_pages P (g @ [p]) = count_pages P g + (if P p then 1 else 0)"
  by (simp add: count_pages_def)

lemma count_pages_remove:
  assumes "i < length g"
  shows "count_pages P (remove_node i g) + (if P (g ! i) then 1 else 0) = count_pages P g"
proof -
  have "g = take i g @ g ! i # drop (Suc i) g"
    using assms by (rule id_take_nth_drop)
  then have "count_pages P g = count_pages P (take i g @ g ! i # drop (Suc i) g)"
    by simp
  then show ?thesis
    by (simp add: count_pages_def remove_node_def)
qed

lemma count_pages_update:
  assumes "i < length g"
  shows "count_pages P (g[i := q]) + (if P (g ! i) then 1 else 0) =
         count_pages P g + (if P q then 1 else 0)"
proof -
  have "g[i := q] = take i g @ q # drop (Suc i) g"
    using assms by (rule upd_conv_take_nth_drop)
  then have "count_pages P (g[i := q]) = count_pages P (remove_node i g) + (if P q then 1 else 0)"
    by (simp add: count_pages_def remove_node_def)
  with count_pages_remove [OF assms, of P] show ?thesis
    by simp
qed

lemma count_pages_mono:
  assumes "\<And>p. p \<in> set g \<Longrightarrow> P p \<Longrightarrow> Q p"
  shows "count_pages P g \<le> count_pages Q g"
  using assms
proof (induction g)
  case Nil
  show ?case by (simp add: count_pages_Nil)
next
  case (Cons p g)
  then have "count_pages P g \<le> count_pages Q g" by simp
  moreover have "P p \<Longrightarrow> Q p" using Cons.prems by simp
  ultimately show ?case by (auto simp: count_pages_Cons)
qed

lemma count_visible_le_loading:
  "count_pages page_visible_loading g \<le> count_pages page_loading g"
  by (rule count_pages_mono) (simp add: page_visible_loading_def page_loading_def)

lemma count_focused_le_loading:
  "count_pages page_focused_loading g \<le> count_pages page_loading g"
  by (rule count_pages_mono) (simp add: page_focused_loading_def page_loading_def)

lemma page_preds:
  "page_loading p = StateIsLoading (loading_state p)"
  "page_visible_loading p = (StateIsLoading (loading_state p) \<and> is_visible p)"
  "page_focused_loading p = (StateIsLoading (loading_state p) \<and> is_focused p)"
  by (simp_all add: page_loading_def page_visible_loading_def page_focused_loading_def)


section \<open>The net effect of a focus change\<close>



section \<open>The loop of the attachment\<close>

lemma OnPassedToGraph_loop_counts:
  "OnPassedToGraph_loop g c = Inr c' \<Longrightarrow>
     unat (loading_pages c') = unat (loading_pages c) + count_pages page_loading g \<and>
     unat (visible_loading_pages c') =
       unat (visible_loading_pages c) + count_pages page_visible_loading g \<and>
     unat (focused_loading_pages c') =
       unat (focused_loading_pages c) + count_pages page_focused_loading g"
proof (induction g arbitrary: c)
  case Nil
  then show ?case by (simp add: count_pages_Nil)
next
  case (Cons p g)
  show ?case
  proof (cases "StateIsLoading (loading_state p)")
    case False
    with Cons.prems have "OnPassedToGraph_loop g c = Inr c'" by simp
    from Cons.IH [OF this] False show ?thesis
      by (simp add: count_pages_Cons page_preds [of p])
  next
    case True
    with Cons.prems obtain c1
      where inc: "IncrementLoadingPageCounts (is_visible p) (is_focused p) c = Inr c1"
        and rest: "OnPassedToGraph_loop g c1 = Inr c'"
      by (auto split: sum.splits)
    from Cons.IH [OF rest] Increment_unat [OF inc] True show ?thesis
      by (simp add: count_pages_Cons page_preds [of p])
  qed
qed

lemma OnPassedToGraph_loop_returns:
  "unat (loading_pages c) + count_pages page_loading g < 2 ^ 64 \<Longrightarrow>
   unat (visible_loading_pages c) \<le> unat (loading_pages c) \<Longrightarrow>
   unat (focused_loading_pages c) \<le> unat (loading_pages c) \<Longrightarrow>
   \<exists>c'. OnPassedToGraph_loop g c = Inr c'"
proof (induction g arbitrary: c)
  case Nil
  show ?case by simp
next
  case (Cons p g)
  show ?case
  proof (cases "StateIsLoading (loading_state p)")
    case False
    with Cons.prems have "unat (loading_pages c) + count_pages page_loading g < 2 ^ 64"
      by (simp add: count_pages_Cons page_preds [of p])
    from Cons.IH [OF this Cons.prems(2,3)] False show ?thesis by simp
  next
    case True
    with Cons.prems(1) have room: "unat (loading_pages c) + 1 + count_pages page_loading g < 2 ^ 64"
      by (simp add: count_pages_Cons page_preds [of p])
    then have "unat (loading_pages c) < 2 ^ 64 - 1" by simp
    with Cons.prems(2,3) have nmax: "loading_pages c \<noteq> size_t_max"
        "visible_loading_pages c \<noteq> size_t_max" "focused_loading_pages c \<noteq> size_t_max"
      by (auto simp: size_t_max_iff)
    then obtain c1
      where inc: "IncrementLoadingPageCounts (is_visible p) (is_focused p) c = Inr c1"
      by (simp add: Increment_Inr_iff)
    from Increment_unat [OF inc] room Cons.prems(2,3)
    have "unat (loading_pages c1) + count_pages page_loading g < 2 ^ 64"
      "unat (visible_loading_pages c1) \<le> unat (loading_pages c1)"
      "unat (focused_loading_pages c1) \<le> unat (loading_pages c1)"
      by simp_all
    from Cons.IH [OF this] inc True show ?thesis by simp
  qed
qed

text \<open>
  C5. Attaching to a population of pages from zeroed counters and a published value of
  \<^verbatim>\<open>kNoPageLoading\<close>: \<^verbatim>\<open>OnPassedToGraph\<close> returns whenever fewer than \<open>2^64\<close> pages
  satisfy the loading predicate, and when it returns \<^verbatim>\<open>loading_pages\<close> is the number of
  pages that satisfy the loading predicate, \<^verbatim>\<open>visible_loading_pages\<close> the number of
  those that are visible, \<^verbatim>\<open>focused_loading_pages\<close> the number of those that are
  focused, and the scenario derived from these counters has been stored to the published
  cell exactly once. The population of four pages of the spec is the witness.
\<close>

theorem OnPassedToGraph_counts:
  assumes "global_counts w = LoadingCounts_default"
    and "global_loading_scenario w = kNoPageLoading"
  shows "(count_pages page_loading g < 2 ^ 64 \<longrightarrow> (\<exists>w'. OnPassedToGraph g w = Inr w')) \<and>
         (\<forall>w'. OnPassedToGraph g w = Inr w' \<longrightarrow>
            unat (loading_pages (global_counts w')) = count_pages page_loading g \<and>
            unat (visible_loading_pages (global_counts w')) =
              count_pages page_visible_loading g \<and>
            unat (focused_loading_pages (global_counts w')) =
              count_pages page_focused_loading g \<and>
            global_loading_scenario w' = GetScenario (global_counts w') \<and>
            scenario_stores w' = scenario_stores w @ [GetScenario (global_counts w')])"
proof -
  have zero: "unat (loading_pages (global_counts w)) = 0"
      "unat (visible_loading_pages (global_counts w)) = 0"
      "unat (focused_loading_pages (global_counts w)) = 0"
    using assms(1) by (simp_all add: LoadingCounts_default_def)
  have returns: "\<exists>w'. OnPassedToGraph g w = Inr w'" if "count_pages page_loading g < 2 ^ 64"
  proof -
    from that zero obtain c' where "OnPassedToGraph_loop g (global_counts w) = Inr c'"
      using OnPassedToGraph_loop_returns [of "global_counts w" g] by auto
    with assms show ?thesis by (simp add: OnPassedToGraph_def)
  qed
  have exact: "unat (loading_pages (global_counts w')) = count_pages page_loading g \<and>
            unat (visible_loading_pages (global_counts w')) =
              count_pages page_visible_loading g \<and>
            unat (focused_loading_pages (global_counts w')) =
              count_pages page_focused_loading g \<and>
            global_loading_scenario w' = GetScenario (global_counts w') \<and>
            scenario_stores w' = scenario_stores w @ [GetScenario (global_counts w')]"
    if "OnPassedToGraph g w = Inr w'" for w'
  proof -
    from that assms obtain c'
      where loop: "OnPassedToGraph_loop g (global_counts w) = Inr c'"
        and w': "w' = UpdateGlobalScenario (w\<lparr>global_counts := c'\<rparr>)"
      by (auto simp: OnPassedToGraph_def split: sum.splits)
    from OnPassedToGraph_loop_counts [OF loop] zero show ?thesis
      by (simp add: w' UpdateGlobalScenario_simps)
  qed
  from returns exact show ?thesis by blast
qed

theorem OnPassedToGraph_counts_witness:
  "OnPassedToGraph
     [\<lparr>loading_state = kLoadedIdle, is_visible = False, is_focused = False\<rparr>,
      \<lparr>loading_state = kLoadedIdle, is_visible = False, is_focused = False\<rparr>,
      \<lparr>loading_state = kLoading, is_visible = True, is_focused = False\<rparr>,
      \<lparr>loading_state = kLoading, is_visible = True, is_focused = True\<rparr>]
     \<lparr>global_counts = LoadingCounts_default, global_loading_scenario = kNoPageLoading,
      scenario_stores = []\<rparr> =
   Inr \<lparr>global_counts =
          \<lparr>focused_loading_pages = 1, visible_loading_pages = 2, loading_pages = 2\<rparr>,
        global_loading_scenario = kFocusedPageLoading,
        scenario_stores = [kFocusedPageLoading]\<rparr>"
proof -
  let ?g = "[\<lparr>loading_state = kLoadedIdle, is_visible = False, is_focused = False\<rparr>,
      \<lparr>loading_state = kLoadedIdle, is_visible = False, is_focused = False\<rparr>,
      \<lparr>loading_state = kLoading, is_visible = True, is_focused = False\<rparr>,
      \<lparr>loading_state = kLoading, is_visible = True, is_focused = True\<rparr>]"
  let ?w = "\<lparr>global_counts = LoadingCounts_default, global_loading_scenario = kNoPageLoading,
      scenario_stores = []\<rparr>"
  have h1: "global_counts ?w = LoadingCounts_default" by simp
  have h2: "global_loading_scenario ?w = kNoPageLoading" by simp
  have n: "count_pages page_loading ?g = 2" "count_pages page_visible_loading ?g = 2"
      "count_pages page_focused_loading ?g = 1"
    by (simp_all add: count_pages_def page_loading_def page_visible_loading_def
        page_focused_loading_def)
  from OnPassedToGraph_counts [OF h1 h2, of ?g] n obtain w'
    where r: "OnPassedToGraph ?g ?w = Inr w'"
      and l: "unat (loading_pages (global_counts w')) = 2"
      and v: "unat (visible_loading_pages (global_counts w')) = 2"
      and f: "unat (focused_loading_pages (global_counts w')) = 1"
      and s: "global_loading_scenario w' = GetScenario (global_counts w')"
      and t: "scenario_stores w' = [GetScenario (global_counts w')]"
    by auto
  have l': "loading_pages (global_counts w') = 2"
    using l word_unat_eq_iff [of "loading_pages (global_counts w')" 2] by simp
  have v': "visible_loading_pages (global_counts w') = 2"
    using v word_unat_eq_iff [of "visible_loading_pages (global_counts w')" 2] by simp
  have f': "focused_loading_pages (global_counts w') = 1"
    using f word_unat_eq_iff [of "focused_loading_pages (global_counts w')" 1] by simp
  have c: "global_counts w' =
      \<lparr>focused_loading_pages = 1, visible_loading_pages = 2, loading_pages = 2\<rparr>"
    using l' v' f' by (cases "global_counts w'") simp
  have "w' = \<lparr>global_counts =
          \<lparr>focused_loading_pages = 1, visible_loading_pages = 2, loading_pages = 2\<rparr>,
        global_loading_scenario = kFocusedPageLoading,
        scenario_stores = [kFocusedPageLoading]\<rparr>"
    using s t c by (cases w') (simp add: GetScenario_def)
  with r show ?thesis by simp
qed

section \<open>The counters follow the tracked pages\<close>

lemma counts_match_empty: "counts_match [] LoadingCounts_default"
  by (simp add: counts_match_def count_pages_Nil LoadingCounts_default_def)

lemma OnPassedToGraph_match:
  assumes "OnPassedToGraph g w = Inr w'"
  shows "counts_match g (global_counts w')"
proof -
  from assms obtain c'
    where zero: "global_counts w = LoadingCounts_default"
      and loop: "OnPassedToGraph_loop g (global_counts w) = Inr c'"
      and w': "global_counts w' = c'"
    by (auto simp: OnPassedToGraph_def UpdateGlobalScenario_simps split: if_splits sum.splits)
  from OnPassedToGraph_loop_counts [OF loop] show ?thesis
    by (simp add: counts_match_def w' zero LoadingCounts_default_def)
qed

lemma OnPageNodeAdded_match:
  assumes m: "counts_match g (global_counts w)"
    and r: "OnPageNodeAdded p w = Inr w'"
  shows "counts_match (g @ [p]) (global_counts w')"
proof (cases "StateIsLoading (loading_state p)")
  case False
  with r have "global_counts w' = global_counts w"
    by (auto simp: OnPageNodeAdded_def UpdateGlobalScenario_simps)
  with m False show ?thesis
    by (simp add: counts_match_def count_pages_snoc page_preds [of p])
next
  case True
  with r obtain c
    where inc: "IncrementLoadingPageCounts (is_visible p) (is_focused p) (global_counts w) = Inr c"
      and w': "global_counts w' = c"
    by (auto simp: OnPageNodeAdded_def UpdateGlobalScenario_simps split: sum.splits)
  from Increment_unat [OF inc] m True show ?thesis
    by (simp add: counts_match_def count_pages_snoc page_preds [of p] w')
qed

lemma OnBeforePageNodeRemoved_match:
  assumes i: "i < length g"
    and m: "counts_match g (global_counts w)"
    and r: "OnBeforePageNodeRemoved (g ! i) w = Inr w'"
  shows "counts_match (remove_node i g) (global_counts w')"
proof (cases "StateIsLoading (loading_state (g ! i))")
  case False
  with r have "w' = w"
    by (simp add: OnBeforePageNodeRemoved_def)
  with m False count_pages_remove [OF i, of page_loading]
    count_pages_remove [OF i, of page_visible_loading]
    count_pages_remove [OF i, of page_focused_loading]
  show ?thesis
    by (simp add: counts_match_def page_preds [of "g ! i"])
next
  case True
  with r obtain c
    where dec: "DecrementLoadingPageCounts (is_visible (g ! i)) (is_focused (g ! i))
                  (global_counts w) = Inr c"
      and w': "global_counts w' = c"
    by (auto simp: OnBeforePageNodeRemoved_def UpdateGlobalScenario_simps split: sum.splits)
  from Decrement_unat [OF dec] m True count_pages_remove [OF i, of page_loading]
    count_pages_remove [OF i, of page_visible_loading]
    count_pages_remove [OF i, of page_focused_loading]
  show ?thesis
    by (simp add: counts_match_def page_preds [of "g ! i"] w' split: if_splits)
qed

text \<open>
  A change of one attribute of a loading page: the decrement with the attributes before
  the change, then the increment with the attributes after it.
\<close>

lemma replace_match:
  assumes i: "i < length g"
    and m: "counts_match g c"
    and old: "StateIsLoading (loading_state (g ! i))"
    and new: "StateIsLoading (loading_state q)"
    and dec: "DecrementLoadingPageCounts (is_visible (g ! i)) (is_focused (g ! i)) c = Inr c1"
    and inc: "IncrementLoadingPageCounts (is_visible q) (is_focused q) c1 = Inr c2"
  shows "counts_match (g[i := q]) c2"
  using Decrement_unat [OF dec] Increment_unat [OF inc] m old new
    count_pages_update [OF i, of page_loading q]
    count_pages_update [OF i, of page_visible_loading q]
    count_pages_update [OF i, of page_focused_loading q]
  by (simp add: counts_match_def page_preds [of "g ! i"] page_preds [of q] split: if_splits)

lemma unchanged_match:
  assumes i: "i < length g"
    and m: "counts_match g c"
    and old: "\<not> StateIsLoading (loading_state (g ! i))"
    and new: "\<not> StateIsLoading (loading_state q)"
  shows "counts_match (g[i := q]) c"
  using m old new
    count_pages_update [OF i, of page_loading q]
    count_pages_update [OF i, of page_visible_loading q]
    count_pages_update [OF i, of page_focused_loading q]
  by (simp add: counts_match_def page_preds [of "g ! i"] page_preds [of q])

lemma OnIsFocusedChanged_match:
  assumes i: "i < length g"
    and ch: "is_focused (g ! i) \<noteq> b"
    and m: "counts_match g (global_counts w)"
    and r: "OnIsFocusedChanged ((g ! i)\<lparr>is_focused := b\<rparr>) w = Inr w'"
  shows "counts_match (g[i := (g ! i)\<lparr>is_focused := b\<rparr>]) (global_counts w')"
proof (cases "StateIsLoading (loading_state (g ! i))")
  case False
  with r have "w' = w" by (simp add: OnIsFocusedChanged_def)
  with unchanged_match [OF i m False, of "(g ! i)\<lparr>is_focused := b\<rparr>"] False
  show ?thesis by simp
next
  case True
  from ch have old: "(\<not> b) = is_focused (g ! i)" by auto
  from r True obtain c1 c2
    where dec: "DecrementLoadingPageCounts (is_visible (g ! i)) (\<not> b) (global_counts w) = Inr c1"
      and inc: "IncrementLoadingPageCounts (is_visible (g ! i)) b c1 = Inr c2"
      and w': "global_counts w' = c2"
    by (auto simp: OnIsFocusedChanged_def UpdateGlobalScenario_simps split: sum.splits)
  from replace_match [OF i m True, of "(g ! i)\<lparr>is_focused := b\<rparr>" c1 c2] True dec inc
  show ?thesis by (simp add: w' old)
qed

lemma OnIsVisibleChanged_match:
  assumes i: "i < length g"
    and ch: "is_visible (g ! i) \<noteq> b"
    and m: "counts_match g (global_counts w)"
    and r: "OnIsVisibleChanged ((g ! i)\<lparr>is_visible := b\<rparr>) w = Inr w'"
  shows "counts_match (g[i := (g ! i)\<lparr>is_visible := b\<rparr>]) (global_counts w')"
proof (cases "StateIsLoading (loading_state (g ! i))")
  case False
  with r have "w' = w" by (simp add: OnIsVisibleChanged_def)
  with unchanged_match [OF i m False, of "(g ! i)\<lparr>is_visible := b\<rparr>"] False
  show ?thesis by simp
next
  case True
  from ch have old: "(\<not> b) = is_visible (g ! i)" by auto
  from r True obtain c1 c2
    where dec: "DecrementLoadingPageCounts (\<not> b) (is_focused (g ! i)) (global_counts w) = Inr c1"
      and inc: "IncrementLoadingPageCounts b (is_focused (g ! i)) c1 = Inr c2"
      and w': "global_counts w' = c2"
    by (auto simp: OnIsVisibleChanged_def UpdateGlobalScenario_simps split: sum.splits)
  from replace_match [OF i m True, of "(g ! i)\<lparr>is_visible := b\<rparr>" c1 c2] True dec inc
  show ?thesis by (simp add: w' old)
qed

lemma OnLoadingStateChanged_match:
  assumes i: "i < length g"
    and m: "counts_match g (global_counts w)"
    and r: "OnLoadingStateChanged ((g ! i)\<lparr>loading_state := s\<rparr>) (loading_state (g ! i)) w =
              Inr w'"
  shows "counts_match (g[i := (g ! i)\<lparr>loading_state := s\<rparr>]) (global_counts w')"
proof -
  let ?p = "g ! i" and ?q = "(g ! i)\<lparr>loading_state := s\<rparr>"
  note upd = count_pages_update [OF i, of page_loading ?q]
    count_pages_update [OF i, of page_visible_loading ?q]
    count_pages_update [OF i, of page_focused_loading ?q]
  consider (same) "StateIsLoading s = StateIsLoading (loading_state ?p)"
    | (started) "StateIsLoading s" "\<not> StateIsLoading (loading_state ?p)"
    | (stopped) "\<not> StateIsLoading s" "StateIsLoading (loading_state ?p)"
    by blast
  then show ?thesis
  proof cases
    case same
    with r have "w' = w" by (simp add: OnLoadingStateChanged_def)
    with m same upd show ?thesis
      by (simp add: counts_match_def page_preds [of ?p] page_preds [of ?q])
  next
    case started
    with r obtain c
      where inc: "IncrementLoadingPageCounts (is_visible ?p) (is_focused ?p) (global_counts w) =
                    Inr c"
        and w': "global_counts w' = c"
      by (auto simp: OnLoadingStateChanged_def UpdateGlobalScenario_simps split: sum.splits)
    from Increment_unat [OF inc] m started upd show ?thesis
      by (simp add: counts_match_def page_preds [of ?p] page_preds [of ?q] w')
  next
    case stopped
    with r obtain c
      where dec: "DecrementLoadingPageCounts (is_visible ?p) (is_focused ?p) (global_counts w) =
                    Inr c"
        and w': "global_counts w' = c"
      by (auto simp: OnLoadingStateChanged_def UpdateGlobalScenario_simps split: sum.splits)
    from Decrement_unat [OF dec] m stopped upd show ?thesis
      by (simp add: counts_match_def page_preds [of ?p] page_preds [of ?q] w' split: if_splits)
  qed
qed

text \<open>
  Between the decrement and the increment of a focus or visibility change, the counters
  are those of the collection without the page: the decrement is made with the page's
  attributes before the change.
\<close>

lemma between_decrement_and_increment:
  assumes i: "i < length g"
    and m: "counts_match g c"
    and old: "StateIsLoading (loading_state (g ! i))"
    and dec: "DecrementLoadingPageCounts (is_visible (g ! i)) (is_focused (g ! i)) c = Inr c1"
  shows "counts_match (remove_node i g) c1"
  using Decrement_unat [OF dec] m old
    count_pages_remove [OF i, of page_loading]
    count_pages_remove [OF i, of page_visible_loading]
    count_pages_remove [OF i, of page_focused_loading]
  by (simp add: counts_match_def page_preds [of "g ! i"] split: if_splits)

lemma deliver_match:
  assumes m: "counts_match g (global_counts w)"
    and r: "deliver e g w = Inr (g', w')"
  shows "counts_match g' (global_counts w')"
proof (cases e)
  case (CreateNode p)
  with r OnPageNodeAdded_match [OF m, of p] show ?thesis
    by (auto split: sum.splits)
next
  case (ResetNode i)
  with r m OnBeforePageNodeRemoved_match [OF _ m, of i] show ?thesis
    by (auto split: sum.splits if_splits)
next
  case (SetIsFocused i b)
  with r m OnIsFocusedChanged_match [OF _ _ m, of i b] show ?thesis
    by (auto split: sum.splits if_splits)
next
  case (SetIsVisible i b)
  with r m OnIsVisibleChanged_match [OF _ _ m, of i b] show ?thesis
    by (auto split: sum.splits if_splits)
next
  case (SetLoadingState i s)
  with r m OnLoadingStateChanged_match [OF _ m, of i s] show ?thesis
    by (auto split: sum.splits if_splits)
qed

lemma run_match:
  "counts_match (fst s) (global_counts (snd s)) \<Longrightarrow> run evs s = Inr s' \<Longrightarrow>
   counts_match (fst s') (global_counts (snd s'))"
proof (induction evs arbitrary: s)
  case Nil
  then show ?case by simp
next
  case (Cons e evs)
  from Cons.prems(2) obtain s1
    where d: "deliver e (fst s) (snd s) = Inr s1" and rest: "run evs s1 = Inr s'"
    by (auto split: sum.splits)
  from deliver_match [OF Cons.prems(1), of e "fst s1" "snd s1"] d
  have "counts_match (fst s1) (global_counts (snd s1))" by simp
  from Cons.IH [OF this rest] show ?case .
qed


text \<open>
  C2 (as the claim states it, refuted). The first steps of the unit test
  \<^verbatim>\<open>FocusedAndVisible\<close>: a page is created, starts loading, and becomes focused while
  it is not visible. Every handler returns, and afterwards \<^verbatim>\<open>focused_loading_pages\<close> is
  1 and \<^verbatim>\<open>visible_loading_pages\<close> is 0.
\<close>

theorem counts_invariant_counterexample:
  "OnPassedToGraph []
     \<lparr>global_counts = LoadingCounts_default, global_loading_scenario = kNoPageLoading,
      scenario_stores = []\<rparr> =
     Inr \<lparr>global_counts = LoadingCounts_default, global_loading_scenario = kNoPageLoading,
          scenario_stores = [kNoPageLoading]\<rparr> \<and>
   run [CreateNode \<lparr>loading_state = kLoadingNotStarted, is_visible = False, is_focused = False\<rparr>,
        SetLoadingState 0 kLoading,
        SetIsFocused 0 True]
     ([], \<lparr>global_counts = LoadingCounts_default, global_loading_scenario = kNoPageLoading,
           scenario_stores = [kNoPageLoading]\<rparr>) =
     Inr ([\<lparr>loading_state = kLoading, is_visible = False, is_focused = True\<rparr>],
          \<lparr>global_counts =
             \<lparr>focused_loading_pages = 1, visible_loading_pages = 0, loading_pages = 1\<rparr>,
           global_loading_scenario = kFocusedPageLoading,
           scenario_stores = [kNoPageLoading, kNoPageLoading, kBackgroundPageLoading,
             kFocusedPageLoading]\<rparr>) \<and>
   \<not> focused_loading_pages
        \<lparr>focused_loading_pages = 1, visible_loading_pages = 0, loading_pages = 1\<rparr> \<le>
      visible_loading_pages
        \<lparr>focused_loading_pages = 1, visible_loading_pages = 0, loading_pages = 1\<rparr>"
proof -
  have i0: "IncrementLoadingPageCounts False False
      \<lparr>focused_loading_pages = 0, visible_loading_pages = 0, loading_pages = 0\<rparr> =
    Inr \<lparr>focused_loading_pages = 0, visible_loading_pages = 0, loading_pages = 1\<rparr>"
    by (simp add: Increment_Inr_iff size_t_max_def)
  have d1: "DecrementLoadingPageCounts False False
      \<lparr>focused_loading_pages = 0, visible_loading_pages = 0, loading_pages = 1\<rparr> =
    Inr \<lparr>focused_loading_pages = 0, visible_loading_pages = 0, loading_pages = 0\<rparr>"
    by (simp add: Decrement_Inr_iff)
  have i1: "IncrementLoadingPageCounts False True
      \<lparr>focused_loading_pages = 0, visible_loading_pages = 0, loading_pages = 0\<rparr> =
    Inr \<lparr>focused_loading_pages = 1, visible_loading_pages = 0, loading_pages = 1\<rparr>"
    by (simp add: Increment_Inr_iff size_t_max_def)
  show ?thesis
    by (simp add: OnPassedToGraph_def OnPageNodeAdded_def OnLoadingStateChanged_def
        OnIsFocusedChanged_def UpdateGlobalScenario_def SetGlobalLoadingScenario_def
        GetScenario_def LoadingCounts_default_def i0 d1 i1)
qed

lemma counts_match_ordered:
  assumes "counts_match h c"
  shows "counts_ordered h c"
proof -
  have fv: "count_pages page_focused_loading h \<le> count_pages page_visible_loading h"
    if "focused_pages_visible h"
  proof (rule count_pages_mono)
    fix p assume "p \<in> set h" "page_focused_loading p"
    with that show "page_visible_loading p"
      by (simp add: focused_pages_visible_def page_preds [of p])
  qed
  from assms fv count_visible_le_loading [of h] count_focused_le_loading [of h]
  show ?thesis
    by (simp add: counts_ordered_def counts_match_def word_le_nat_alt)
qed

text \<open>
  C2 (amended). The observer is attached to a page collection with zeroed counters, and
  the collection then delivers any sequence of notifications, each reading the page's
  current attributes; a focused page may report that it is not visible. After every
  operation on the counters that returns, the counters are the numbers of the pages
  counted at that point that are loading, loading and visible, loading and focused, so
  \<^verbatim>\<open>visible_loading_pages <= loading_pages\<close> and
  \<^verbatim>\<open>focused_loading_pages <= loading_pages\<close> hold, and
  \<^verbatim>\<open>focused_loading_pages <= visible_loading_pages\<close> holds whenever every counted page
  that is loading and focused is also visible. The states after an operation are:
  \<^item> the state at the return of a notification, which counts the tracked pages \<open>g\<close>
    (first six conjuncts);
  \<^item> the state between the \<^verbatim>\<open>DecrementLoadingPageCounts\<close> and the
    \<^verbatim>\<open>IncrementLoadingPageCounts\<close> of the next \<^verbatim>\<open>OnIsFocusedChanged\<close> or
    \<^verbatim>\<open>OnIsVisibleChanged\<close>, for a loading page \<open>i\<close> whose attribute changes to \<open>b\<close>,
    which counts the tracked pages without that page;
  \<^item> the state after each increment of the loop of \<^verbatim>\<open>OnPassedToGraph\<close>, which counts
    the pages the loop has passed.
\<close>

theorem counts_invariant:
  assumes "OnPassedToGraph g0 w0 = Inr w1"
    and "run evs (g0, w1) = Inr (g, w)"
  shows "unat (loading_pages (global_counts w)) = count_pages page_loading g \<and>
         unat (visible_loading_pages (global_counts w)) = count_pages page_visible_loading g \<and>
         unat (focused_loading_pages (global_counts w)) = count_pages page_focused_loading g \<and>
         visible_loading_pages (global_counts w) \<le> loading_pages (global_counts w) \<and>
         focused_loading_pages (global_counts w) \<le> loading_pages (global_counts w) \<and>
         ((\<forall>p \<in> set g. StateIsLoading (loading_state p) \<and> is_focused p \<longrightarrow> is_visible p) \<longrightarrow>
            focused_loading_pages (global_counts w) \<le> visible_loading_pages (global_counts w)) \<and>
         (\<forall>i b c1. i < length g \<and> is_focused (g ! i) \<noteq> b \<and>
            StateIsLoading (loading_state ((g ! i)\<lparr>is_focused := b\<rparr>)) \<and>
            DecrementLoadingPageCounts (is_visible ((g ! i)\<lparr>is_focused := b\<rparr>))
              (\<not> is_focused ((g ! i)\<lparr>is_focused := b\<rparr>)) (global_counts w) = Inr c1 \<longrightarrow>
            counts_match (remove_node i g) c1 \<and> counts_ordered (remove_node i g) c1) \<and>
         (\<forall>i b c1. i < length g \<and> is_visible (g ! i) \<noteq> b \<and>
            StateIsLoading (loading_state ((g ! i)\<lparr>is_visible := b\<rparr>)) \<and>
            DecrementLoadingPageCounts (\<not> is_visible ((g ! i)\<lparr>is_visible := b\<rparr>))
              (is_focused ((g ! i)\<lparr>is_visible := b\<rparr>)) (global_counts w) = Inr c1 \<longrightarrow>
            counts_match (remove_node i g) c1 \<and> counts_ordered (remove_node i g) c1) \<and>
         (\<forall>n c. OnPassedToGraph_loop (take n g0) (global_counts w0) = Inr c \<longrightarrow>
            counts_match (take n g0) c \<and> counts_ordered (take n g0) c)"
proof -
  have "counts_match (fst (g0, w1)) (global_counts (snd (g0, w1)))"
    using OnPassedToGraph_match [OF assms(1)] by simp
  from run_match [OF this assms(2)] have m: "counts_match g (global_counts w)"
    by simp
  from counts_match_ordered [OF m]
  have final: "visible_loading_pages (global_counts w) \<le> loading_pages (global_counts w)"
      "focused_loading_pages (global_counts w) \<le> loading_pages (global_counts w)"
      "(\<forall>p \<in> set g. StateIsLoading (loading_state p) \<and> is_focused p \<longrightarrow> is_visible p) \<longrightarrow>
         focused_loading_pages (global_counts w) \<le> visible_loading_pages (global_counts w)"
    by (simp_all add: counts_ordered_def focused_pages_visible_def)
  have focus: "counts_match (remove_node i g) c1 \<and> counts_ordered (remove_node i g) c1"
    if "i < length g" "is_focused (g ! i) \<noteq> b"
      "StateIsLoading (loading_state ((g ! i)\<lparr>is_focused := b\<rparr>))"
      "DecrementLoadingPageCounts (is_visible ((g ! i)\<lparr>is_focused := b\<rparr>))
         (\<not> is_focused ((g ! i)\<lparr>is_focused := b\<rparr>)) (global_counts w) = Inr c1"
    for i b c1
  proof -
    from that(2) have "(\<not> b) = is_focused (g ! i)" by auto
    with that(3,4)
    have "StateIsLoading (loading_state (g ! i))"
      "DecrementLoadingPageCounts (is_visible (g ! i)) (is_focused (g ! i)) (global_counts w) =
         Inr c1"
      by simp_all
    from between_decrement_and_increment [OF that(1) m this]
    show ?thesis by (simp add: counts_match_ordered)
  qed
  have visible: "counts_match (remove_node i g) c1 \<and> counts_ordered (remove_node i g) c1"
    if "i < length g" "is_visible (g ! i) \<noteq> b"
      "StateIsLoading (loading_state ((g ! i)\<lparr>is_visible := b\<rparr>))"
      "DecrementLoadingPageCounts (\<not> is_visible ((g ! i)\<lparr>is_visible := b\<rparr>))
         (is_focused ((g ! i)\<lparr>is_visible := b\<rparr>)) (global_counts w) = Inr c1"
    for i b c1
  proof -
    from that(2) have "(\<not> b) = is_visible (g ! i)" by auto
    with that(3,4)
    have "StateIsLoading (loading_state (g ! i))"
      "DecrementLoadingPageCounts (is_visible (g ! i)) (is_focused (g ! i)) (global_counts w) =
         Inr c1"
      by simp_all
    from between_decrement_and_increment [OF that(1) m this]
    show ?thesis by (simp add: counts_match_ordered)
  qed
  have attach: "counts_match (take n g0) c \<and> counts_ordered (take n g0) c"
    if "OnPassedToGraph_loop (take n g0) (global_counts w0) = Inr c" for n c
  proof -
    from assms(1) have "global_counts w0 = LoadingCounts_default"
      by (auto simp: OnPassedToGraph_def split: if_splits)
    with OnPassedToGraph_loop_counts [OF that] have "counts_match (take n g0) c"
      by (simp add: counts_match_def LoadingCounts_default_def)
    then show ?thesis by (simp add: counts_match_ordered)
  qed
  from m final focus visible attach show ?thesis
    unfolding counts_match_def [of g] by blast
qed

theorem counts_invariant_witness:
  "OnPassedToGraph [\<lparr>loading_state = kLoading, is_visible = False, is_focused = False\<rparr>]
     \<lparr>global_counts = LoadingCounts_default, global_loading_scenario = kNoPageLoading,
      scenario_stores = []\<rparr> =
     Inr \<lparr>global_counts =
            \<lparr>focused_loading_pages = 0, visible_loading_pages = 0, loading_pages = 1\<rparr>,
          global_loading_scenario = kBackgroundPageLoading,
          scenario_stores = [kBackgroundPageLoading]\<rparr> \<and>
   run [SetIsVisible 0 True, SetIsFocused 0 True,
        CreateNode \<lparr>loading_state = kLoadedBusy, is_visible = False, is_focused = False\<rparr>]
     ([\<lparr>loading_state = kLoading, is_visible = False, is_focused = False\<rparr>],
      \<lparr>global_counts =
         \<lparr>focused_loading_pages = 0, visible_loading_pages = 0, loading_pages = 1\<rparr>,
       global_loading_scenario = kBackgroundPageLoading,
       scenario_stores = [kBackgroundPageLoading]\<rparr>) =
     Inr ([\<lparr>loading_state = kLoading, is_visible = True, is_focused = True\<rparr>,
           \<lparr>loading_state = kLoadedBusy, is_visible = False, is_focused = False\<rparr>],
          \<lparr>global_counts =
             \<lparr>focused_loading_pages = 1, visible_loading_pages = 1, loading_pages = 2\<rparr>,
           global_loading_scenario = kFocusedPageLoading,
           scenario_stores = [kBackgroundPageLoading, kVisiblePageLoading,
             kFocusedPageLoading, kFocusedPageLoading]\<rparr>) \<and>
   focused_loading_pages
     \<lparr>focused_loading_pages = 1, visible_loading_pages = 1, loading_pages = 2\<rparr> \<le>
   visible_loading_pages
     \<lparr>focused_loading_pages = 1, visible_loading_pages = 1, loading_pages = 2\<rparr> \<and>
   visible_loading_pages
     \<lparr>focused_loading_pages = 1, visible_loading_pages = 1, loading_pages = 2\<rparr> \<le>
   loading_pages
     \<lparr>focused_loading_pages = 1, visible_loading_pages = 1, loading_pages = 2\<rparr> \<and>
   DecrementLoadingPageCounts True (\<not> False)
     \<lparr>focused_loading_pages = 1, visible_loading_pages = 1, loading_pages = 2\<rparr> =
     Inr \<lparr>focused_loading_pages = 0, visible_loading_pages = 0, loading_pages = 1\<rparr> \<and>
   counts_match [\<lparr>loading_state = kLoadedBusy, is_visible = False, is_focused = False\<rparr>]
     \<lparr>focused_loading_pages = 0, visible_loading_pages = 0, loading_pages = 1\<rparr> \<and>
   counts_ordered [\<lparr>loading_state = kLoadedBusy, is_visible = False, is_focused = False\<rparr>]
     \<lparr>focused_loading_pages = 0, visible_loading_pages = 0, loading_pages = 1\<rparr>"
proof -
  let ?p = "\<lparr>loading_state = kLoading, is_visible = False, is_focused = False\<rparr>"
  let ?wa = "\<lparr>global_counts = LoadingCounts_default, global_loading_scenario = kNoPageLoading,
      scenario_stores = []\<rparr>"
  let ?wb = "\<lparr>global_counts =
            \<lparr>focused_loading_pages = 0, visible_loading_pages = 0, loading_pages = 1\<rparr>,
          global_loading_scenario = kBackgroundPageLoading,
          scenario_stores = [kBackgroundPageLoading]\<rparr>"
  let ?evs = "[SetIsVisible 0 True, SetIsFocused 0 True,
        CreateNode \<lparr>loading_state = kLoadedBusy, is_visible = False, is_focused = False\<rparr>]"
  let ?g = "[\<lparr>loading_state = kLoading, is_visible = True, is_focused = True\<rparr>,
           \<lparr>loading_state = kLoadedBusy, is_visible = False, is_focused = False\<rparr>]"
  let ?wc = "\<lparr>global_counts =
             \<lparr>focused_loading_pages = 1, visible_loading_pages = 1, loading_pages = 2\<rparr>,
           global_loading_scenario = kFocusedPageLoading,
           scenario_stores = [kBackgroundPageLoading, kVisiblePageLoading,
             kFocusedPageLoading, kFocusedPageLoading]\<rparr>"
  let ?cm = "\<lparr>focused_loading_pages = 0, visible_loading_pages = 0, loading_pages = 1\<rparr>"
  have i0: "IncrementLoadingPageCounts False False
      \<lparr>focused_loading_pages = 0, visible_loading_pages = 0, loading_pages = 0\<rparr> =
    Inr \<lparr>focused_loading_pages = 0, visible_loading_pages = 0, loading_pages = 1\<rparr>"
    by (simp add: Increment_Inr_iff size_t_max_def)
  have d1: "DecrementLoadingPageCounts False False
      \<lparr>focused_loading_pages = 0, visible_loading_pages = 0, loading_pages = 1\<rparr> =
    Inr \<lparr>focused_loading_pages = 0, visible_loading_pages = 0, loading_pages = 0\<rparr>"
    by (simp add: Decrement_Inr_iff)
  have i1: "IncrementLoadingPageCounts True False
      \<lparr>focused_loading_pages = 0, visible_loading_pages = 0, loading_pages = 0\<rparr> =
    Inr \<lparr>focused_loading_pages = 0, visible_loading_pages = 1, loading_pages = 1\<rparr>"
    by (simp add: Increment_Inr_iff size_t_max_def)
  have d2: "DecrementLoadingPageCounts True False
      \<lparr>focused_loading_pages = 0, visible_loading_pages = 1, loading_pages = 1\<rparr> =
    Inr \<lparr>focused_loading_pages = 0, visible_loading_pages = 0, loading_pages = 0\<rparr>"
    by (simp add: Decrement_Inr_iff)
  have i2: "IncrementLoadingPageCounts True True
      \<lparr>focused_loading_pages = 0, visible_loading_pages = 0, loading_pages = 0\<rparr> =
    Inr \<lparr>focused_loading_pages = 1, visible_loading_pages = 1, loading_pages = 1\<rparr>"
    by (simp add: Increment_Inr_iff size_t_max_def)
  have i3: "IncrementLoadingPageCounts False False
      \<lparr>focused_loading_pages = 1, visible_loading_pages = 1, loading_pages = 1\<rparr> =
    Inr \<lparr>focused_loading_pages = 1, visible_loading_pages = 1, loading_pages = 2\<rparr>"
    by (simp add: Increment_Inr_iff size_t_max_def)
  have d3: "DecrementLoadingPageCounts True (\<not> False)
      \<lparr>focused_loading_pages = 1, visible_loading_pages = 1, loading_pages = 2\<rparr> = Inr ?cm"
    by (simp add: Decrement_Inr_iff)
  have a: "OnPassedToGraph [?p] ?wa = Inr ?wb"
    by (simp add: OnPassedToGraph_def UpdateGlobalScenario_def SetGlobalLoadingScenario_def
        GetScenario_def LoadingCounts_default_def i0)
  have r: "run ?evs ([?p], ?wb) = Inr (?g, ?wc)"
    by (simp add: OnPageNodeAdded_def OnIsVisibleChanged_def OnIsFocusedChanged_def
        UpdateGlobalScenario_def SetGlobalLoadingScenario_def GetScenario_def
        d1 i1 d2 i2 i3)
  have all: "\<forall>p \<in> set ?g. StateIsLoading (loading_state p) \<and> is_focused p \<longrightarrow> is_visible p"
    by simp
  note inv = counts_invariant [OF a r]
  from inv all have fin: "focused_loading_pages (global_counts ?wc) \<le>
      visible_loading_pages (global_counts ?wc) \<and>
    visible_loading_pages (global_counts ?wc) \<le> loading_pages (global_counts ?wc)"
    by blast
  from inv have "\<forall>i b c1. i < length ?g \<and> is_focused (?g ! i) \<noteq> b \<and>
            StateIsLoading (loading_state ((?g ! i)\<lparr>is_focused := b\<rparr>)) \<and>
            DecrementLoadingPageCounts (is_visible ((?g ! i)\<lparr>is_focused := b\<rparr>))
              (\<not> is_focused ((?g ! i)\<lparr>is_focused := b\<rparr>)) (global_counts ?wc) = Inr c1 \<longrightarrow>
            counts_match (remove_node i ?g) c1 \<and> counts_ordered (remove_node i ?g) c1"
    by blast
  from this [rule_format, of 0 False ?cm] d3
  have mid: "counts_match (remove_node 0 ?g) ?cm \<and> counts_ordered (remove_node 0 ?g) ?cm"
    by simp
  from a r fin d3 mid show ?thesis
    by (simp add: remove_node_def)
qed

end
